theory Spec2Isabelle
  imports Complex_Main "HOL-Library.Log_Nat"
begin

section \<open>LumaScreen: the ring light overlay\<close>

text \<open>
  A shallow embedding of \<^verbatim>\<open>RingLightOverlay\<close> as it is written in
  \<^verbatim>\<open>ringlight.py\<close> (the rounded frame) and in \<^verbatim>\<open>ringlight_original.py\<close>
  (the layered bloom): the three setters and \<^verbatim>\<open>paintEvent\<close>.

  Python's \<^verbatim>\<open>int\<close> is \<^typ>\<open>int\<close>. A Python \<^verbatim>\<open>float\<close> is an IEEE 754
  double: a finite value, kept as the rational it denotes, or one of the three special
  values. Every float operation of the code rounds its exact result to the nearest double,
  ties to even, and overflows to an infinity (\<open>fl\<close> below); the conversion of an
  \<^verbatim>\<open>int\<close> to a float rounds the same way and raises \<^verbatim>\<open>OverflowError\<close>
  where the double would be infinite. The two zeros are not told apart.
\<close>

subsection \<open>Python values\<close>

datatype pyfloat = Fin rat | PosInf | NegInf | NaN

datatype pynum = PyInt int | PyFloat pyfloat

text \<open>An argument is numeric (\<^verbatim>\<open>isinstance(x, (int, float))\<close>) or it is not.\<close>

datatype pyval = Num pynum | NonNumeric

datatype error = ValueError | OverflowError

subsection \<open>Rounding to a double\<close>

text \<open>Round to the nearest integer, a tie to the even one.\<close>

definition rne :: "rat \<Rightarrow> int" where
  "rne x =
     (let n = \<lfloor>x\<rfloor>; d = x - of_int n
      in if d < 1 / 2 then n else if 1 / 2 < d then n + 1 else if even n then n else n + 1)"

text \<open>The binary exponent of a positive \<open>q\<close>: \<open>2 ^ ilog2 q \<le> q < 2 ^ (ilog2 q + 1)\<close>.\<close>

definition ilog2 :: "rat \<Rightarrow> int" where
  "ilog2 q = (if 1 \<le> q then bitlen \<lfloor>q\<rfloor> - 1 else - bitlen (\<lceil>1 / q\<rceil> - 1))"

text \<open>
  The exponent of the last of the 53 bits of the significand; it stops at \<open>-1074\<close>,
  where the subnormal numbers are.
\<close>

definition expo :: "rat \<Rightarrow> int" where
  "expo q = max (ilog2 \<bar>q\<bar> - 52) (- 1074)"

text \<open>The double nearest to \<open>q\<close>, were the exponent unbounded above.\<close>

definition nearest :: "rat \<Rightarrow> rat" where
  "nearest q =
     (if q = 0 then 0
      else sgn q * of_int (rne (\<bar>q\<bar> / 2 powi expo q)) * 2 powi expo q)"

text \<open>The rounded result of a float operation: from \<open>2 ^ 1024\<close> on it is an infinity.\<close>

definition fl :: "rat \<Rightarrow> pyfloat" where
  "fl q =
     (let r = nearest q
      in if 2 ^ 1024 \<le> r then PosInf else if r \<le> - (2 ^ 1024) then NegInf else Fin r)"

subsection \<open>Operations on Python numbers\<close>

text \<open>
  The exact value of a number, as the comparisons of an \<^verbatim>\<open>int\<close> with a float see
  it (Python compares the two exactly).
\<close>

fun as_float :: "pynum \<Rightarrow> pyfloat" where
  "as_float (PyInt i) = Fin (of_int i)"
| "as_float (PyFloat f) = f"

text \<open>\<^verbatim>\<open>a < b\<close> on floats: every comparison with nan is false.\<close>

fun float_lt :: "pyfloat \<Rightarrow> pyfloat \<Rightarrow> bool" where
  "float_lt NaN _ = False"
| "float_lt _ NaN = False"
| "float_lt (Fin a) (Fin b) = (a < b)"
| "float_lt (Fin a) PosInf = True"
| "float_lt (Fin a) NegInf = False"
| "float_lt PosInf _ = False"
| "float_lt NegInf NegInf = False"
| "float_lt NegInf _ = True"

text \<open>\<^verbatim>\<open>a <= b\<close> on floats.\<close>

fun float_le :: "pyfloat \<Rightarrow> pyfloat \<Rightarrow> bool" where
  "float_le NaN _ = False"
| "float_le _ NaN = False"
| "float_le (Fin a) (Fin b) = (a \<le> b)"
| "float_le (Fin a) PosInf = True"
| "float_le (Fin a) NegInf = False"
| "float_le PosInf PosInf = True"
| "float_le PosInf _ = False"
| "float_le NegInf _ = True"

text \<open>
  The builtins \<^verbatim>\<open>min(a, b)\<close> and \<^verbatim>\<open>max(a, b)\<close> keep the first argument unless
  the second is strictly smaller (greater), so a nan in second place is dropped.
\<close>

definition py_min :: "pyfloat \<Rightarrow> pyfloat \<Rightarrow> pyfloat" where
  "py_min a b = (if float_lt b a then b else a)"

definition py_max :: "pyfloat \<Rightarrow> pyfloat \<Rightarrow> pyfloat" where
  "py_max a b = (if float_lt a b then b else a)"

text \<open>\<^verbatim>\<open>a * b\<close> on floats.\<close>

fun float_mul :: "pyfloat \<Rightarrow> pyfloat \<Rightarrow> pyfloat" where
  "float_mul NaN _ = NaN"
| "float_mul _ NaN = NaN"
| "float_mul (Fin a) (Fin b) = fl (a * b)"
| "float_mul (Fin a) PosInf = (if 0 < a then PosInf else if a < 0 then NegInf else NaN)"
| "float_mul (Fin a) NegInf = (if 0 < a then NegInf else if a < 0 then PosInf else NaN)"
| "float_mul PosInf (Fin b) = (if 0 < b then PosInf else if b < 0 then NegInf else NaN)"
| "float_mul NegInf (Fin b) = (if 0 < b then NegInf else if b < 0 then PosInf else NaN)"
| "float_mul PosInf PosInf = PosInf"
| "float_mul PosInf NegInf = NegInf"
| "float_mul NegInf PosInf = NegInf"
| "float_mul NegInf NegInf = PosInf"

text \<open>\<^verbatim>\<open>x / 100.0\<close> on floats: the divisor is finite and positive.\<close>

fun float_div_pos :: "pyfloat \<Rightarrow> rat \<Rightarrow> pyfloat" where
  "float_div_pos (Fin a) d = fl (a / d)"
| "float_div_pos PosInf d = PosInf"
| "float_div_pos NegInf d = NegInf"
| "float_div_pos NaN d = NaN"

text \<open>
  The float an arithmetic operation makes of a number first: an \<^verbatim>\<open>int\<close> is
  rounded to a double, and is too large when that double would be infinite.
\<close>

fun to_double :: "pynum \<Rightarrow> error + pyfloat" where
  "to_double (PyInt i) =
     (case fl (of_int i) of Fin r \<Rightarrow> Inr (Fin r) | _ \<Rightarrow> Inl OverflowError)"
| "to_double (PyFloat f) = Inr f"

text \<open>\<^verbatim>\<open>int(x)\<close> truncates towards zero, and raises on nan and on the infinities.\<close>

definition trunc :: "rat \<Rightarrow> int" where
  "trunc q = (if 0 \<le> q then \<lfloor>q\<rfloor> else \<lceil>q\<rceil>)"

fun py_int :: "pynum \<Rightarrow> error + int" where
  "py_int (PyInt i) = Inr i"
| "py_int (PyFloat (Fin q)) = Inr (trunc q)"
| "py_int (PyFloat NaN) = Inl ValueError"
| "py_int (PyFloat PosInf) = Inl OverflowError"
| "py_int (PyFloat NegInf) = Inl OverflowError"

subsection \<open>RingLightConfig\<close>

definition DEFAULT_THICKNESS :: int where "DEFAULT_THICKNESS = 220"
definition MIN_THICKNESS :: int where "MIN_THICKNESS = 1"
definition MAX_THICKNESS :: int where "MAX_THICKNESS = 900"
definition MIN_BRIGHTNESS_PERCENT :: int where "MIN_BRIGHTNESS_PERCENT = 0"
definition MAX_BRIGHTNESS_PERCENT :: int where "MAX_BRIGHTNESS_PERCENT = 200"
definition MIN_BRIGHTNESS :: pyfloat where "MIN_BRIGHTNESS = Fin 0"
definition MAX_BRIGHTNESS :: pyfloat where "MAX_BRIGHTNESS = Fin 2"
definition SCREEN_MARGIN :: int where "SCREEN_MARGIN = 10"
definition OUTER_CORNER_RADIUS :: int where "OUTER_CORNER_RADIUS = 20"

subsection \<open>The overlay's parameters\<close>

text \<open>
  A \<^verbatim>\<open>QColor\<close> as the code reads it: \<^verbatim>\<open>isValid()\<close> and the three channels.
  Qt keeps the channels of a valid colour within 0..255; \<open>qcolor_ok\<close> says so.
\<close>

record qcolor =
  isValid :: bool
  red :: int
  green :: int
  blue :: int

definition qcolor_ok :: "qcolor \<Rightarrow> bool" where
  "qcolor_ok c = (isValid c \<and> 0 \<le> red c \<and> red c \<le> 255 \<and> 0 \<le> green c \<and> green c \<le> 255
     \<and> 0 \<le> blue c \<and> blue c \<le> 255)"

text \<open>\<^verbatim>\<open>QColor(r, g, b)\<close> with channels in range.\<close>

definition QColor :: "int \<Rightarrow> int \<Rightarrow> int \<Rightarrow> qcolor" where
  "QColor r g b = \<lparr>isValid = True, red = r, green = g, blue = b\<rparr>"

text \<open>The argument of \<^verbatim>\<open>set_color\<close>: \<^verbatim>\<open>None\<close>, a \<^verbatim>\<open>QColor\<close>, or anything else.\<close>

datatype color_arg = PyNone | AQColor qcolor | NotAQColor

record overlay =
  thickness :: int
  brightness :: pyfloat
  color :: qcolor

text \<open>\<^verbatim>\<open>__init__\<close> of \<^verbatim>\<open>ringlight.py\<close>: 220 px, 100 %, white.\<close>

definition init :: overlay where
  "init = \<lparr>thickness = DEFAULT_THICKNESS, brightness = Fin 1, color = QColor 255 255 255\<rparr>"

text \<open>
  \<^verbatim>\<open>__init__\<close> of \<^verbatim>\<open>ringlight_original.py\<close>: 220 px, white, and the double
  that the literal \<^verbatim>\<open>0.80\<close> denotes.
\<close>

definition init_original :: overlay where
  "init_original =
     \<lparr>thickness = DEFAULT_THICKNESS, brightness = Fin (nearest (4 / 5)),
      color = QColor 255 255 255\<rparr>"

text \<open>What a call writes with \<^verbatim>\<open>logger.warning\<close>.\<close>

datatype warning =
  BrightnessOutOfRange | ThicknessBelowMinimum | NoneColor | InvalidColor | InvalidDimensions

text \<open>A caller's use of the setters: one call, with its argument.\<close>

datatype call = SetBrightnessPercent pyval | SetThickness pyval | SetColor color_arg

subsection \<open>The setters of ringlight.py\<close>

text \<open>
  A setter returns \<open>Inl e\<close> when it raises \<open>e\<close> (the overlay is then as it was), and
  otherwise the overlay it leaves with the warnings it logged. The repaint request
  \<^verbatim>\<open>self.update()\<close> and the debug log lines are left out. In
  \<^verbatim>\<open>value_0_200 / 100.0\<close> an \<^verbatim>\<open>int\<close> is converted to a float first.
\<close>

definition set_brightness_percent :: "overlay \<Rightarrow> pyval \<Rightarrow> error + overlay \<times> warning list" where
  "set_brightness_percent self value_0_200 =
     (case value_0_200 of
        NonNumeric \<Rightarrow> Inl ValueError
      | Num v \<Rightarrow>
          let ws = (if \<not> (float_le (Fin (of_int MIN_BRIGHTNESS_PERCENT)) (as_float v)
                          \<and> float_le (as_float v) (Fin (of_int MAX_BRIGHTNESS_PERCENT)))
                    then [BrightnessOutOfRange] else [])
          in (case to_double v of
                Inl e \<Rightarrow> Inl e
              | Inr f \<Rightarrow>
                  Inr (self\<lparr>brightness :=
                             py_max MIN_BRIGHTNESS
                               (py_min MAX_BRIGHTNESS (float_div_pos f 100))\<rparr>, ws)))"

definition set_thickness :: "overlay \<Rightarrow> pyval \<Rightarrow> error + overlay \<times> warning list" where
  "set_thickness self pixels =
     (case pixels of
        NonNumeric \<Rightarrow> Inl ValueError
      | Num v \<Rightarrow>
          let ws = (if float_lt (as_float v) (Fin (of_int MIN_THICKNESS))
                    then [ThicknessBelowMinimum] else [])
          in (case py_int v of
                Inl e \<Rightarrow> Inl e
              | Inr n \<Rightarrow> Inr (self\<lparr>thickness := max MIN_THICKNESS n\<rparr>, ws)))"

definition set_color :: "overlay \<Rightarrow> color_arg \<Rightarrow> error + overlay \<times> warning list" where
  "set_color self new_color =
     (case new_color of
        PyNone \<Rightarrow> Inr (self, [NoneColor])
      | NotAQColor \<Rightarrow> Inl ValueError
      | AQColor c \<Rightarrow>
          if \<not> isValid c then Inr (self, [InvalidColor])
          else Inr (self\<lparr>color := c\<rparr>, []))"

subsection \<open>The setters of ringlight\_original.py\<close>

text \<open>
  The first version has no type check and logs no warning; it is modelled on numeric
  arguments.
\<close>

definition set_brightness_percent_original :: "overlay \<Rightarrow> pynum \<Rightarrow> error + overlay" where
  "set_brightness_percent_original self value_0_200 =
     (case to_double value_0_200 of
        Inl e \<Rightarrow> Inl e
      | Inr f \<Rightarrow>
          Inr (self\<lparr>brightness :=
                     py_max MIN_BRIGHTNESS (py_min MAX_BRIGHTNESS (float_div_pos f 100))\<rparr>))"


text \<open>
  A sequence of calls on one overlay. A call that raises leaves the overlay as it was,
  and the caller goes on with the next call.
\<close>

definition call_setter :: "overlay \<Rightarrow> call \<Rightarrow> error + overlay \<times> warning list" where
  "call_setter self c =
     (case c of
        SetBrightnessPercent v \<Rightarrow> set_brightness_percent self v
      | SetThickness v \<Rightarrow> set_thickness self v
      | SetColor a \<Rightarrow> set_color self a)"

definition after_call :: "overlay \<Rightarrow> call \<Rightarrow> overlay" where
  "after_call self c = (case call_setter self c of Inl e \<Rightarrow> self | Inr r \<Rightarrow> fst r)"

definition after_calls :: "overlay \<Rightarrow> call list \<Rightarrow> overlay" where
  "after_calls self cs = foldl after_call self cs"

text \<open>The colours a caller can hand over: whatever is a \<^verbatim>\<open>QColor\<close> is one of Qt's.\<close>

fun call_ok :: "call \<Rightarrow> bool" where
  "call_ok (SetColor (AQColor c)) = (isValid c \<longrightarrow> qcolor_ok c)"
| "call_ok _ = True"

subsection \<open>paintEvent of ringlight.py: the rounded frame\<close>

text \<open>A \<^verbatim>\<open>QRectF(x, y, w, h)\<close> or \<^verbatim>\<open>QRect(x, y, w, h)\<close>.\<close>

record rect =
  rx :: int
  ry :: int
  rw :: int
  rh :: int

text \<open>
  What \<^verbatim>\<open>fillPath\<close> is called with: the outer rounded rectangle minus the inner one,
  and the colour with its alpha.
\<close>

record fill =
  fill_outer_rect :: rect
  fill_outer_radius :: int
  fill_inner_rect :: rect
  fill_inner_radius :: int
  fill_color :: qcolor
  fill_alpha :: int

text \<open>
  The three ways \<^verbatim>\<open>paintEvent\<close> returns: the early return on invalid dimensions,
  an exception caught and logged by \<^verbatim>\<open>except Exception\<close>, or the fill.
\<close>

datatype painted = Skipped warning | Failed error | Filled fill

text \<open>The local variables of \<^verbatim>\<open>paintEvent\<close>, in the order of the source.\<close>

definition max_thickness :: "int \<Rightarrow> int \<Rightarrow> int" where
  "max_thickness w h = max MIN_THICKNESS (min w h div 2 - SCREEN_MARGIN)"

definition effective_thickness :: "overlay \<Rightarrow> int \<Rightarrow> int \<Rightarrow> int" where
  "effective_thickness self w h = min (thickness self) (max_thickness w h)"

definition alpha :: "overlay \<Rightarrow> error + int" where
  "alpha self =
     (case py_int (PyFloat (float_mul (Fin 255) (brightness self))) of
        Inl e \<Rightarrow> Inl e
      | Inr a \<Rightarrow> Inr (max 0 (min 255 a)))"

definition outer_rect :: "int \<Rightarrow> int \<Rightarrow> rect" where
  "outer_rect w h =
     \<lparr>rx = SCREEN_MARGIN, ry = SCREEN_MARGIN,
      rw = w - 2 * SCREEN_MARGIN, rh = h - 2 * SCREEN_MARGIN\<rparr>"

definition inner_rect :: "overlay \<Rightarrow> int \<Rightarrow> int \<Rightarrow> rect" where
  "inner_rect self w h =
     \<lparr>rx = SCREEN_MARGIN + effective_thickness self w h,
      ry = SCREEN_MARGIN + effective_thickness self w h,
      rw = w - 2 * (SCREEN_MARGIN + effective_thickness self w h),
      rh = h - 2 * (SCREEN_MARGIN + effective_thickness self w h)\<rparr>"

definition inner_radius :: "overlay \<Rightarrow> int \<Rightarrow> int \<Rightarrow> int" where
  "inner_radius self w h = max 0 (OUTER_CORNER_RADIUS - effective_thickness self w h)"

definition paintEvent :: "overlay \<Rightarrow> int \<Rightarrow> int \<Rightarrow> painted" where
  "paintEvent self w h =
     (if w \<le> 0 \<or> h \<le> 0 then Skipped InvalidDimensions
      else case alpha self of
        Inl e \<Rightarrow> Failed e
      | Inr a \<Rightarrow>
          Filled \<lparr>fill_outer_rect = outer_rect w h,
                  fill_outer_radius = OUTER_CORNER_RADIUS,
                  fill_inner_rect = inner_rect self w h,
                  fill_inner_radius = inner_radius self w h,
                  fill_color = color self,
                  fill_alpha = a\<rparr>)"

subsection \<open>paintEvent of ringlight\_original.py: the layered bloom\<close>

text \<open>
  One \<^verbatim>\<open>fillRect\<close> with a linear gradient: the rectangle, the gradient's start and
  end points, and the colour that fades from \<open>band_alpha\<close> at the start to alpha 0 at
  the end.
\<close>

record band =
  band_rect :: rect
  grad_start :: "int \<times> int"
  grad_end :: "int \<times> int"
  band_color :: qcolor
  band_alpha :: int

text \<open>The table of the layers; each literal is the double nearest to its decimal.\<close>

definition layers :: "(rat \<times> rat) list" where
  "layers =
     [(1, 1), (nearest (7 / 10), nearest (3 / 4)),
      (nearest (9 / 20), nearest (11 / 20)), (nearest (1 / 4), nearest (2 / 5))]"

text \<open>The local \<^verbatim>\<open>t\<close>.\<close>

definition bloom_t :: "overlay \<Rightarrow> int \<Rightarrow> int \<Rightarrow> int" where
  "bloom_t self w h = min (thickness self) (max 1 (min w h))"

text \<open>
  The local \<^verbatim>\<open>size = max(1, int(t * mul))\<close>: \<^verbatim>\<open>t\<close> is converted to a float,
  the product is rounded, and \<^verbatim>\<open>int()\<close> truncates it.
\<close>

definition layer_size :: "int \<Rightarrow> rat \<Rightarrow> error + int" where
  "layer_size t mul =
     (case to_double (PyInt t) of
        Inl e \<Rightarrow> Inl e
      | Inr f \<Rightarrow>
          (case py_int (PyFloat (float_mul f (Fin mul))) of
             Inl e \<Rightarrow> Inl e
           | Inr n \<Rightarrow> Inr (max 1 n)))"

text \<open>The local \<^verbatim>\<open>alpha\<close> of one layer, with the cap at 220.\<close>

definition layer_alpha :: "overlay \<Rightarrow> rat \<Rightarrow> error + int" where
  "layer_alpha self intensity =
     (case py_int (PyFloat (float_mul (float_mul (Fin 255) (brightness self)) (Fin intensity))) of
        Inl e \<Rightarrow> Inl e
      | Inr a \<Rightarrow> Inr (max 0 (min 220 a)))"

text \<open>The four calls of one layer: top, bottom, left, right.\<close>

definition layer_bands :: "qcolor \<Rightarrow> int \<Rightarrow> int \<Rightarrow> int \<Rightarrow> int \<Rightarrow> band list" where
  "layer_bands base w h sz a =
     [\<lparr>band_rect = \<lparr>rx = 0, ry = 0, rw = w, rh = sz\<rparr>,
       grad_start = (0, 0), grad_end = (0, sz), band_color = base, band_alpha = a\<rparr>,
      \<lparr>band_rect = \<lparr>rx = 0, ry = h - sz, rw = w, rh = sz\<rparr>,
       grad_start = (0, h), grad_end = (0, h - sz), band_color = base, band_alpha = a\<rparr>,
      \<lparr>band_rect = \<lparr>rx = 0, ry = 0, rw = sz, rh = h\<rparr>,
       grad_start = (0, 0), grad_end = (sz, 0), band_color = base, band_alpha = a\<rparr>,
      \<lparr>band_rect = \<lparr>rx = w - sz, ry = 0, rw = sz, rh = h\<rparr>,
       grad_start = (w, 0), grad_end = (w - sz, 0), band_color = base, band_alpha = a\<rparr>]"

text \<open>
  The loop over the layers. There is no \<^verbatim>\<open>try\<close> here: an exception leaves the
  loop, after the bands painted so far, and reaches the caller.
\<close>

fun paint_layers ::
  "overlay \<Rightarrow> int \<Rightarrow> int \<Rightarrow> int \<Rightarrow> (rat \<times> rat) list \<Rightarrow> band list \<times> error option" where
  "paint_layers self w h t [] = ([], None)"
| "paint_layers self w h t ((intensity, mul) # ls) =
     (case layer_size t mul of
        Inl e \<Rightarrow> ([], Some e)
      | Inr sz \<Rightarrow>
          (case layer_alpha self intensity of
             Inl e \<Rightarrow> ([], Some e)
           | Inr a \<Rightarrow>
               (case paint_layers self w h t ls of
                  (bands, r) \<Rightarrow> (layer_bands (color self) w h sz a @ bands, r))))"

text \<open>
  \<^verbatim>\<open>self.width()\<close> and \<^verbatim>\<open>self.height()\<close> are C \<^verbatim>\<open>int\<close>s of Qt, 32 bits
  wide.
\<close>

definition qt_int :: "int \<Rightarrow> bool" where
  "qt_int x = (- (2 ^ 31) \<le> x \<and> x < 2 ^ 31)"

definition paintEvent_original :: "overlay \<Rightarrow> int \<Rightarrow> int \<Rightarrow> band list \<times> error option" where
  "paintEvent_original self w h = paint_layers self w h (bloom_t self w h) layers"

subsection \<open>The formulas of the specification\<close>

text \<open>
  The alpha of the rounded frame and of a bloom layer as the specification words them,
  with rounding to the nearest integer, to compare with the code's truncation.
\<close>

definition clamp :: "int \<Rightarrow> int \<Rightarrow> int \<Rightarrow> int" where
  "clamp x lo hi = max lo (min hi x)"

definition spec_effective_alpha :: "rat \<Rightarrow> int" where
  "spec_effective_alpha b = clamp (round (255 * b)) 0 255"

definition spec_layer_alpha :: "rat \<Rightarrow> rat \<Rightarrow> int" where
  "spec_layer_alpha b intensity = clamp (round (255 * b * intensity)) 0 220"

subsection \<open>The range of the parameters\<close>

text \<open>
  What the setters are to keep: a thickness of at least \<^verbatim>\<open>MIN_THICKNESS\<close>, a finite
  brightness within \<open>[0, 2]\<close>, and one of Qt's valid colours.
\<close>

fun brightness_in_range :: "pyfloat \<Rightarrow> bool" where
  "brightness_in_range (Fin b) = (0 \<le> b \<and> b \<le> 2)"
| "brightness_in_range _ = False"

definition params_ok :: "overlay \<Rightarrow> bool" where
  "params_ok self =
     (MIN_THICKNESS \<le> thickness self \<and> brightness_in_range (brightness self)
      \<and> qcolor_ok (color self))"

section \<open>Properties\<close>

lemmas config_defs =
  DEFAULT_THICKNESS_def MIN_THICKNESS_def MAX_THICKNESS_def MIN_BRIGHTNESS_PERCENT_def
  MAX_BRIGHTNESS_PERCENT_def MIN_BRIGHTNESS_def MAX_BRIGHTNESS_def SCREEN_MARGIN_def
  OUTER_CORNER_RADIUS_def

subsection \<open>Rounding to a double is monotone and exact on doubles\<close>

lemma rne_of_int [simp]: "rne (of_int n) = n"
  by (simp add: rne_def)

lemma rne_lower: "of_int n \<le> x \<Longrightarrow> n \<le> rne x"
proof -
  assume "of_int n \<le> x"
  then have "n \<le> \<lfloor>x\<rfloor>" by (simp add: le_floor_iff)
  then show ?thesis by (auto simp: rne_def Let_def)
qed

lemma rne_upper: "x \<le> of_int n \<Longrightarrow> rne x \<le> n"
proof (cases "x = of_int n")
  case True
  then show ?thesis by simp
next
  case False
  assume "x \<le> of_int n"
  with False have "x < of_int n" by simp
  then have "\<lfloor>x\<rfloor> < n" by (simp add: floor_less_iff)
  then show ?thesis by (auto simp: rne_def Let_def)
qed

lemma rne_mono: "x \<le> y \<Longrightarrow> rne x \<le> rne y"
proof -
  assume xy: "x \<le> y"
  have f: "\<lfloor>x\<rfloor> \<le> \<lfloor>y\<rfloor>" using xy by (rule floor_mono)
  show ?thesis
  proof (cases "\<lfloor>x\<rfloor> = \<lfloor>y\<rfloor>")
    case True
    then have "x - of_int \<lfloor>x\<rfloor> \<le> y - of_int \<lfloor>y\<rfloor>" using xy by simp
    with True show ?thesis by (auto simp: rne_def Let_def)
  next
    case False
    with f have "\<lfloor>x\<rfloor> + 1 \<le> \<lfloor>y\<rfloor>" by simp
    moreover have "rne x \<le> \<lfloor>x\<rfloor> + 1" by (auto simp: rne_def Let_def)
    moreover have "\<lfloor>y\<rfloor> \<le> rne y" by (auto simp: rne_def Let_def)
    ultimately show ?thesis by linarith
  qed
qed


lemma two_powi_pos [simp]: "0 < (2::rat) powi k"
  by (simp add: power_int_def)

lemma two_powi_nat: "0 \<le> k \<Longrightarrow> (2::rat) powi k = of_int (2 ^ nat k)"
  by (simp add: power_int_def)

lemma two_powi_Suc: "(2::rat) powi (k + 1) = 2 * 2 powi k"
  by (simp add: power_int_add)

lemma two_powi_le: "j \<le> k \<Longrightarrow> (2::rat) powi j \<le> 2 powi k"
  by (rule power_int_increasing) simp_all

lemma two_powi_split: "(2::rat) powi (j + k) = 2 powi j * 2 powi k"
  by (simp add: power_int_add)

lemma two_powi_div: "(2::rat) powi j / 2 powi k = 2 powi (j - k)"
  by (simp add: power_int_diff)

lemma ilog2_bounds:
  assumes "0 < q"
  shows "2 powi ilog2 q \<le> q \<and> q < 2 powi (ilog2 q + 1)"
proof (cases "1 \<le> q")
  case True
  define n where "n = \<lfloor>q\<rfloor>"
  have n: "0 < n" "of_int n \<le> q" "q < of_int (n + 1)"
    using True by (simp_all add: n_def) linarith
  define j where "j = bitlen n"
  have j: "2 ^ nat (j - 1) \<le> n" "n < 2 ^ nat j"
    using bitlen_bounds [OF n(1)] by (simp_all add: j_def)
  have j1: "1 \<le> j"
    using n(1) by (auto simp: j_def bitlen_alt_def)
  have "(2::rat) powi (j - 1) = of_int (2 ^ nat (j - 1))"
    using j1 by (simp add: two_powi_nat)
  also have "\<dots> \<le> of_int n"
    using j(1) by (simp only: of_int_le_iff)
  finally have lo: "2 powi (j - 1) \<le> q"
    using n(2) by simp
  have "n + 1 \<le> 2 ^ nat j"
    using j(2) by simp
  then have "(of_int (n + 1) :: rat) \<le> of_int (2 ^ nat j)"
    by (simp only: of_int_le_iff)
  also have "\<dots> = 2 powi j"
    using j1 by (simp add: two_powi_nat)
  finally have hi: "q < 2 powi j"
    using n(3) by simp
  from lo hi True show ?thesis
    by (simp add: ilog2_def n_def [symmetric] j_def [symmetric])
next
  case False
  define x where "x = 1 / q"
  have x: "1 < x" "0 < x"
    using False assms by (simp_all add: x_def)
  define n where "n = \<lceil>x\<rceil> - 1"
  have n: "0 < n" "of_int n < x" "x \<le> of_int (n + 1)"
    using x(1) by (simp_all add: n_def less_ceiling_iff) linarith
  define j where "j = bitlen n"
  have j: "2 ^ nat (j - 1) \<le> n" "n < 2 ^ nat j"
    using bitlen_bounds [OF n(1)] by (simp_all add: j_def)
  have j1: "1 \<le> j"
    using n(1) by (auto simp: j_def bitlen_alt_def)
  have "n + 1 \<le> 2 ^ nat j"
    using j(2) by simp
  then have "(of_int (n + 1) :: rat) \<le> of_int (2 ^ nat j)"
    by (simp only: of_int_le_iff)
  also have "\<dots> = 2 powi j"
    using j1 by (simp add: two_powi_nat)
  finally have "x \<le> 2 powi j"
    using n(3) by simp
  then have "1 / 2 powi j \<le> 1 / x"
    using x(2) by (simp add: frac_le)
  then have lo: "2 powi (- j) \<le> q"
    by (simp add: x_def power_int_minus_divide)
  have "(2::rat) powi (j - 1) = of_int (2 ^ nat (j - 1))"
    using j1 by (simp add: two_powi_nat)
  also have "\<dots> \<le> of_int n"
    using j(1) by (simp only: of_int_le_iff)
  finally have "2 powi (j - 1) < x"
    using n(2) by simp
  then have "1 / x < 1 / 2 powi (j - 1)"
    by (simp add: frac_less2)
  then have "q < 2 powi (- (j - 1))"
    by (simp only: power_int_minus_divide) (simp add: x_def)
  moreover have "- (j - 1) = - j + 1"
    by simp
  ultimately have hi: "q < 2 powi (- j + 1)"
    by simp
  from lo hi False show ?thesis
    by (simp add: ilog2_def x_def [symmetric] n_def [symmetric] j_def [symmetric])
qed

lemma log2_order:
  assumes "(2::rat) powi j \<le> x" and "x \<le> y" and "y < 2 powi (k + 1)"
  shows "j \<le> k"
proof (rule ccontr)
  assume "\<not> j \<le> k"
  then have "k + 1 \<le> j" by simp
  then have "(2::rat) powi (k + 1) \<le> 2 powi j" by (rule two_powi_le)
  with assms show False by linarith
qed

lemma ilog2_unique:
  assumes "0 < q" and "2 powi k \<le> q" and "q < 2 powi (k + 1)"
  shows "ilog2 q = k"
proof -
  note b = ilog2_bounds [OF assms(1)]
  have "ilog2 q \<le> k"
    using b assms(3) by (intro log2_order [of "ilog2 q" q q k]) simp_all
  moreover have "k \<le> ilog2 q"
    using b assms(2) by (intro log2_order [of k q q "ilog2 q"]) simp_all
  ultimately show ?thesis by simp
qed

lemma ilog2_mono:
  assumes "0 < x" and "x \<le> y"
  shows "ilog2 x \<le> ilog2 y"
proof -
  have "0 < y" using assms by simp
  from ilog2_bounds [OF assms(1)] ilog2_bounds [OF this] assms(2)
  show ?thesis
    by (intro log2_order [of "ilog2 x" x y "ilog2 y"]) simp_all
qed


lemma nearest_pos:
  "0 < q \<Longrightarrow> nearest q = of_int (rne (q / 2 powi expo q)) * 2 powi expo q"
  by (simp add: nearest_def)

lemma expo_minus [simp]: "expo (- q) = expo q"
  by (simp add: expo_def)

lemma nearest_minus: "nearest (- q) = - nearest q"
  by (simp add: nearest_def)

lemma nearest_zero [simp]: "nearest 0 = 0"
  by (simp add: nearest_def)

lemma nearest_nonneg: "0 \<le> q \<Longrightarrow> 0 \<le> nearest q"
proof (cases "q = 0")
  case True
  then show ?thesis by simp
next
  case False
  assume "0 \<le> q"
  with False have q: "0 < q" by simp
  have "0 \<le> q / 2 powi expo q"
    using q by simp
  then have "0 \<le> rne (q / 2 powi expo q)"
    using rne_lower [of 0] by simp
  then show ?thesis
    using q by (simp add: nearest_pos)
qed

lemma expo_mono: "0 < x \<Longrightarrow> x \<le> y \<Longrightarrow> expo x \<le> expo y"
  using ilog2_mono [of x y] by (simp add: expo_def)

lemma nearest_mono_pos:
  assumes "0 < x" and "x \<le> y"
  shows "nearest x \<le> nearest y"
proof -
  have y: "0 < y" using assms by simp
  have e: "expo x \<le> expo y" using assms by (rule expo_mono)
  show ?thesis
  proof (cases "expo x = expo y")
    case True
    have "x / 2 powi expo y \<le> y / 2 powi expo y"
      using assms(2) by (simp add: divide_right_mono)
    then have "rne (x / 2 powi expo y) \<le> rne (y / 2 powi expo y)"
      by (rule rne_mono)
    then have "(of_int (rne (x / 2 powi expo y)) :: rat) \<le> of_int (rne (y / 2 powi expo y))"
      by (simp only: of_int_le_iff)
    then show ?thesis
      using True by (simp add: nearest_pos assms(1) y)
  next
    case False
    with e have lt: "expo x < expo y" by simp
    define k where "k = ilog2 y"
    have "- 1074 \<le> expo x"
      by (simp add: expo_def)
    with lt have "- 1074 < expo y"
      by simp
    moreover have "expo y = max (k - 52) (- 1074)"
      by (simp add: expo_def k_def abs_of_pos [OF y])
    ultimately have ey: "expo y = k - 52"
      by linarith
    have ex: "ilog2 x - 52 \<le> expo x"
      by (simp add: expo_def abs_of_pos [OF assms(1)])
    have kx: "ilog2 x + 1 \<le> k"
      using ex lt ey by linarith
    have "x < 2 powi (ilog2 x + 1)"
      using ilog2_bounds [OF assms(1)] by simp
    also have "\<dots> \<le> 2 powi k"
      using kx by (rule two_powi_le)
    finally have xk: "x \<le> 2 powi k" by simp
    have d: "0 \<le> k - expo x"
      using lt ey by linarith
    have "x / 2 powi expo x \<le> 2 powi k / 2 powi expo x"
      using xk by (simp add: divide_right_mono)
    also have "\<dots> = of_int (2 ^ nat (k - expo x))"
      using d by (simp add: two_powi_div two_powi_nat)
    finally have "rne (x / 2 powi expo x) \<le> 2 ^ nat (k - expo x)"
      by (rule rne_upper)
    then have "(of_int (rne (x / 2 powi expo x)) :: rat) \<le> of_int (2 ^ nat (k - expo x))"
      by (simp only: of_int_le_iff)
    also have "\<dots> = 2 powi (k - expo x)"
      using d by (simp add: two_powi_nat)
    finally have "(of_int (rne (x / 2 powi expo x)) :: rat) * 2 powi expo x
        \<le> 2 powi (k - expo x) * 2 powi expo x"
      by (simp add: mult_right_mono)
    also have "\<dots> = 2 powi k"
      by (simp add: two_powi_split [symmetric])
    finally have lo: "nearest x \<le> 2 powi k"
      by (simp add: nearest_pos assms(1))
    have "2 powi k \<le> y"
      using ilog2_bounds [OF y] by (simp add: k_def)
    then have "2 powi k / 2 powi expo y \<le> y / 2 powi expo y"
      by (simp add: divide_right_mono)
    moreover have "2 powi k / 2 powi expo y = (of_int (2 ^ 52) :: rat)"
      by (simp add: ey two_powi_div)
    ultimately have "of_int (2 ^ 52) \<le> y / 2 powi expo y"
      by simp
    then have "2 ^ 52 \<le> rne (y / 2 powi expo y)"
      by (rule rne_lower)
    then have "(of_int (2 ^ 52) :: rat) \<le> of_int (rne (y / 2 powi expo y))"
      by (simp only: of_int_le_iff)
    then have m: "(of_int (2 ^ 52) :: rat) * 2 powi expo y
        \<le> of_int (rne (y / 2 powi expo y)) * 2 powi expo y"
      by (rule mult_right_mono) simp
    have "(of_int (2 ^ 52) :: rat) = 2 powi 52"
      by simp
    then have "(of_int (2 ^ 52) :: rat) * 2 powi expo y = 2 powi (52 + expo y)"
      by (simp only: two_powi_split)
    also have "52 + expo y = k"
      by (simp add: ey)
    finally have "(2::rat) powi k \<le> of_int (rne (y / 2 powi expo y)) * 2 powi expo y"
      using m by (simp only:)
    then have hi: "2 powi k \<le> nearest y"
      by (simp only: nearest_pos [OF y])
    from lo hi show ?thesis by simp
  qed
qed

lemma nearest_mono:
  assumes "x \<le> y"
  shows "nearest x \<le> nearest y"
proof -
  consider "0 < x" | "y < 0" | "x \<le> 0" "0 \<le> y"
    using assms by linarith
  then show ?thesis
  proof cases
    case 1
    then show ?thesis using assms by (rule nearest_mono_pos)
  next
    case 2
    then have "0 < - y" "- y \<le> - x" using assms by simp_all
    then have "nearest (- y) \<le> nearest (- x)" by (rule nearest_mono_pos)
    then show ?thesis by (simp add: nearest_minus)
  next
    case 3
    have "0 \<le> nearest (- x)" using 3(1) by (intro nearest_nonneg) simp
    then have "nearest x \<le> 0" by (simp add: nearest_minus)
    moreover have "0 \<le> nearest y" using 3(2) by (rule nearest_nonneg)
    ultimately show ?thesis by simp
  qed
qed

lemma nearest_exact_pos:
  assumes "0 < m" and "m < 2 ^ 53" and "- 1074 \<le> e"
  shows "nearest (of_int m * 2 powi e) = of_int m * 2 powi e"
proof -
  define q :: rat where "q = of_int m * 2 powi e"
  have q: "0 < q" using assms(1) by (simp add: q_def)
  have "(of_int m :: rat) < of_int (2 ^ 53)"
    using assms(2) by (simp only: of_int_less_iff)
  then have "q < of_int (2 ^ 53) * 2 powi e"
    by (simp add: q_def)
  also have "\<dots> = 2 powi (53 + e)"
  proof -
    have "(of_int (2 ^ 53) :: rat) = 2 powi 53" by simp
    then show ?thesis by (simp only: two_powi_split [symmetric])
  qed
  finally have "q < 2 powi (53 + e)" .
  moreover have "2 powi ilog2 q \<le> q"
    using ilog2_bounds [OF q] by simp
  ultimately have "(2::rat) powi ilog2 q < 2 powi (53 + e)"
    by simp
  then have "ilog2 q < 53 + e"
  proof (rule_tac ccontr)
    assume a: "(2::rat) powi ilog2 q < 2 powi (53 + e)" and "\<not> ilog2 q < 53 + e"
    then have "53 + e \<le> ilog2 q" by simp
    then have "(2::rat) powi (53 + e) \<le> 2 powi ilog2 q" by (rule two_powi_le)
    with a show False by simp
  qed
  then have le: "expo q \<le> e"
    using assms(3) by (simp add: expo_def abs_of_pos [OF q])
  define d where "d = nat (e - expo q)"
  have e: "e = expo q + int d"
    using le by (simp add: d_def)
  have "q / 2 powi expo q = of_int m * (2 powi e / 2 powi expo q)"
    by (simp add: q_def)
  also have "\<dots> = of_int (m * 2 ^ d)"
    by (simp add: two_powi_div e)
  finally have "rne (q / 2 powi expo q) = m * 2 ^ d"
    by (simp only: rne_of_int)
  then have "nearest q = of_int (m * 2 ^ d) * 2 powi expo q"
    by (simp only: nearest_pos [OF q])
  also have "\<dots> = of_int m * (2 powi int d * 2 powi expo q)"
    by (simp add: mult.assoc)
  also have "2 powi int d * 2 powi expo q = (2::rat) powi (int d + expo q)"
    by (rule two_powi_split [symmetric])
  also have "int d + expo q = e"
    using e by simp
  finally show ?thesis by (simp only: q_def)
qed

lemma nearest_exact:
  assumes "\<bar>m\<bar> < 2 ^ 53" and "- 1074 \<le> e"
  shows "nearest (of_int m * 2 powi e) = of_int m * 2 powi e"
proof -
  consider "m = 0" | "0 < m" | "m < 0" by linarith
  then show ?thesis
  proof cases
    case 1
    then show ?thesis by simp
  next
    case 2
    with assms show ?thesis by (intro nearest_exact_pos) simp_all
  next
    case 3
    with assms have "nearest (of_int (- m) * 2 powi e) = of_int (- m) * 2 powi e"
      by (intro nearest_exact_pos) simp_all
    then show ?thesis
      using nearest_minus [of "of_int m * 2 powi e"] by simp
  qed
qed

lemma nearest_of_int: "\<bar>m\<bar> < 2 ^ 53 \<Longrightarrow> nearest (of_int m) = of_int m"
  using nearest_exact [of m 0] by simp


lemma nearest_eval:
  assumes "0 < q" and "2 powi k \<le> q" and "q < 2 powi (k + 1)"
  shows "nearest q = of_int (rne (q / 2 powi max (k - 52) (- 1074))) * 2 powi max (k - 52) (- 1074)"
  using ilog2_unique [OF assms] assms(1) by (simp add: nearest_pos expo_def)

lemma floor_rat_numeral:
  "\<lfloor>numeral a / numeral b :: rat\<rfloor> = numeral a div numeral b"
  using floor_divide_of_int_eq [where ?'a = rat, of "numeral a" "numeral b"] by simp


lemma nearest_le_int: "q \<le> of_int n \<Longrightarrow> \<bar>n\<bar> < 2 ^ 53 \<Longrightarrow> nearest q \<le> of_int n"
  using nearest_mono [of q "of_int n"] by (simp add: nearest_of_int)

lemma nearest_ge_int: "of_int n \<le> q \<Longrightarrow> \<bar>n\<bar> < 2 ^ 53 \<Longrightarrow> of_int n \<le> nearest q"
  using nearest_mono [of "of_int n" q] by (simp add: nearest_of_int)

lemma big_pow: "(2::rat) ^ 53 < 2 ^ 1024"
  by simp

lemma fl_finite:
  assumes "of_int lo \<le> q" and "q \<le> of_int hi" and "\<bar>lo\<bar> < 2 ^ 53" and "\<bar>hi\<bar> < 2 ^ 53"
  shows "fl q = Fin (nearest q)"
proof -
  have "of_int lo \<le> nearest q" "nearest q \<le> of_int hi"
    using assms by (simp_all add: nearest_le_int nearest_ge_int)
  moreover have "- (2 ^ 53) < (of_int lo :: rat)" "(of_int hi :: rat) < 2 ^ 53"
    using assms(3,4)
    by (metis abs_less_iff of_int_less_iff of_int_minus of_int_numeral of_int_power minus_less_iff,
        metis abs_less_iff of_int_less_iff of_int_numeral of_int_power)
  ultimately have "- (2 ^ 1024) < nearest q" "nearest q < 2 ^ 1024"
    using big_pow by linarith+
  then show ?thesis
    by (simp add: fl_def Let_def)
qed

subsection \<open>Auxiliary facts on the setters and the painting\<close>

lemma trunc_of_int: "trunc (of_int i) = i"
  by (simp add: trunc_def)



lemma trunc_nonneg: "0 \<le> q \<Longrightarrow> trunc q = \<lfloor>q\<rfloor>"
  by (simp add: trunc_def)

lemma trunc_le_one: "q \<le> 1 \<Longrightarrow> trunc q \<le> 1"
  by (auto simp: trunc_def floor_le_iff not_le intro: order.trans)

lemma trunc_nonpos: "q \<le> 0 \<Longrightarrow> trunc q \<le> 0"
  by (auto simp: trunc_def floor_le_iff)

lemma clamp_brightness:
  "py_max MIN_BRIGHTNESS (py_min MAX_BRIGHTNESS (Fin q)) = Fin (max 0 (min 2 q))"
  by (auto simp: py_max_def py_min_def config_defs)

lemma clamp_brightness_special:
  "py_max MIN_BRIGHTNESS (py_min MAX_BRIGHTNESS NaN) = Fin 2"
  "py_max MIN_BRIGHTNESS (py_min MAX_BRIGHTNESS PosInf) = Fin 2"
  "py_max MIN_BRIGHTNESS (py_min MAX_BRIGHTNESS NegInf) = Fin 0"
  by (simp_all add: py_max_def py_min_def config_defs)

lemma fl_cases:
  "fl q = Fin (nearest q) \<or> (fl q = PosInf \<and> 2 ^ 1024 \<le> nearest q)
   \<or> (fl q = NegInf \<and> nearest q \<le> - (2 ^ 1024))"
  by (simp add: fl_def Let_def)

lemma clamp_fl_in:
  assumes "0 \<le> q" and "q \<le> 2"
  shows "py_max MIN_BRIGHTNESS (py_min MAX_BRIGHTNESS (fl q)) = Fin (nearest q)"
proof -
  have "of_int 0 \<le> q" "q \<le> of_int 2" using assms by simp_all
  then have f: "fl q = Fin (nearest q)" by (rule fl_finite) simp_all
  have "0 \<le> nearest q" using assms(1) by (rule nearest_nonneg)
  moreover have "nearest q \<le> of_int 2"
    using assms(2) by (intro nearest_le_int) simp_all
  ultimately show ?thesis
    by (simp add: f clamp_brightness)
qed

lemma clamp_fl_above:
  assumes "2 \<le> q"
  shows "py_max MIN_BRIGHTNESS (py_min MAX_BRIGHTNESS (fl q)) = Fin 2"
proof -
  have "of_int 2 \<le> nearest q"
    using assms by (intro nearest_ge_int) simp_all
  then have n: "2 \<le> nearest q" by simp
  from fl_cases [of q] show ?thesis
  proof (elim disjE conjE)
    assume "fl q = Fin (nearest q)"
    with n show ?thesis by (simp add: clamp_brightness)
  next
    assume "fl q = PosInf"
    then show ?thesis by (simp add: clamp_brightness_special)
  next
    assume "nearest q \<le> - (2 ^ 1024)"
    with n show ?thesis by simp
  qed
qed

lemma clamp_fl_below:
  assumes "q \<le> 0"
  shows "py_max MIN_BRIGHTNESS (py_min MAX_BRIGHTNESS (fl q)) = Fin 0"
proof -
  have "nearest q \<le> of_int 0"
    using assms by (intro nearest_le_int) simp_all
  then have n: "nearest q \<le> 0" by simp
  from fl_cases [of q] show ?thesis
  proof (elim disjE conjE)
    assume "fl q = Fin (nearest q)"
    with n show ?thesis by (simp add: clamp_brightness)
  next
    assume "2 ^ 1024 \<le> nearest q"
    with n show ?thesis by simp
  next
    assume "fl q = NegInf"
    then show ?thesis by (simp add: clamp_brightness_special)
  qed
qed

lemma to_double_int_exact: "\<bar>i\<bar> < 2 ^ 53 \<Longrightarrow> to_double (PyInt i) = Inr (Fin (of_int i))"
proof -
  assume i: "\<bar>i\<bar> < 2 ^ 53"
  have "fl (of_int i) = Fin (nearest (of_int i))"
    using i by (intro fl_finite [of i _ i]) simp_all
  then show ?thesis
    using i by (simp add: nearest_of_int)
qed

lemma to_double_int_value:
  "\<not> isl (to_double (PyInt i)) \<Longrightarrow> to_double (PyInt i) = Inr (Fin (nearest (of_int i)))"
  using fl_cases [of "of_int i"] by auto


lemma alpha_finite:
  assumes "brightness self = Fin b" and "0 \<le> b" and "b \<le> 2"
  shows "alpha self = Inr (clamp (trunc (nearest (255 * b))) 0 255)"
proof -
  have "of_int 0 \<le> 255 * b" "255 * b \<le> of_int 510"
    using assms(2,3) by simp_all
  then have "fl (255 * b) = Fin (nearest (255 * b))"
    by (rule fl_finite) simp_all
  then show ?thesis
    using assms(1) by (simp add: alpha_def clamp_def)
qed

lemma product_range:
  assumes "0 \<le> b" and "b \<le> 2"
  shows "0 \<le> nearest (255 * b)" and "nearest (255 * b) \<le> 510"
proof -
  show "0 \<le> nearest (255 * b)"
    using assms(1) by (intro nearest_nonneg) simp
  have "nearest (255 * b) \<le> of_int 510"
    using assms(2) by (intro nearest_le_int) simp_all
  then show "nearest (255 * b) \<le> 510" by simp
qed

lemma layer_alpha_finite:
  assumes "brightness self = Fin b" and "0 \<le> b" and "b \<le> 2"
    and "0 \<le> intensity" and "intensity \<le> 1"
  shows "layer_alpha self intensity =
           Inr (clamp (trunc (nearest (nearest (255 * b) * intensity))) 0 220)"
proof -
  define p where "p = nearest (255 * b)"
  have p: "0 \<le> p" "p \<le> 510"
    using product_range [OF assms(2,3)] by (simp_all add: p_def)
  have "of_int 0 \<le> 255 * b" "255 * b \<le> of_int 510"
    using assms(2,3) by simp_all
  then have f1: "fl (255 * b) = Fin p"
    unfolding p_def by (rule fl_finite) simp_all
  have "p * intensity \<le> p * 1"
    using p(1) assms(5) by (intro mult_left_mono)
  then have "of_int 0 \<le> p * intensity" "p * intensity \<le> of_int 510"
    using p assms(4) by simp_all
  then have f2: "fl (p * intensity) = Fin (nearest (p * intensity))"
    by (rule fl_finite) simp_all
  show ?thesis
    using assms(1) by (simp add: layer_alpha_def f1 f2 clamp_def p_def [symmetric])
qed

lemma layer_size_exact:
  assumes "\<bar>t\<bar> < 2 ^ 53" and "0 \<le> mul" and "mul \<le> 1"
  shows "layer_size t mul = Inr (max 1 (trunc (nearest (of_int t * mul))))"
proof -
  have "\<bar>of_int t * mul\<bar> \<le> \<bar>of_int t :: rat\<bar> * 1"
    unfolding abs_mult using assms(2,3) by (intro mult_left_mono) simp_all
  then have "\<bar>of_int t * mul\<bar> \<le> (of_int \<bar>t\<bar> :: rat)"
    by simp
  then have "of_int (- \<bar>t\<bar>) \<le> of_int t * mul" "of_int t * mul \<le> of_int \<bar>t\<bar>"
    by (simp_all add: abs_le_iff)
  then have "fl (of_int t * mul) = Fin (nearest (of_int t * mul))"
    using assms(1) by (intro fl_finite [of "- \<bar>t\<bar>" _ "\<bar>t\<bar>"]) simp_all
  then show ?thesis
    by (simp add: layer_size_def to_double_int_exact [OF assms(1)] del: to_double.simps)
qed

lemma layers_range:
  assumes "(intensity, mul) \<in> set layers"
  shows "0 \<le> intensity \<and> intensity \<le> 1 \<and> 0 \<le> mul \<and> mul \<le> 1"
proof -
  have r: "0 \<le> nearest q \<and> nearest q \<le> 1" if "0 \<le> q" "q \<le> 1" for q
  proof
    show "0 \<le> nearest q" using that(1) by (rule nearest_nonneg)
    have "nearest q \<le> of_int 1" using that(2) by (intro nearest_le_int) simp_all
    then show "nearest q \<le> 1" by simp
  qed
  from assms show ?thesis
    by (auto simp: layers_def r)
qed

lemma paint_layers_finite:
  assumes "brightness self = Fin b" and "0 \<le> b" and "b \<le> 2" and "\<bar>t\<bar> < 2 ^ 53"
    and "\<forall>l \<in> set ls. 0 \<le> fst l \<and> fst l \<le> 1 \<and> 0 \<le> snd l \<and> snd l \<le> 1"
  shows "paint_layers self w h t ls =
     (concat (map (\<lambda>(intensity, mul).
        layer_bands (color self) w h (max 1 (trunc (nearest (of_int t * mul))))
          (clamp (trunc (nearest (nearest (255 * b) * intensity))) 0 220)) ls), None)"
  using assms(5)
proof (induction ls)
  case Nil
  then show ?case by simp
next
  case (Cons l ls)
  obtain intensity mul where l: "l = (intensity, mul)" by (cases l)
  have r: "0 \<le> intensity" "intensity \<le> 1" "0 \<le> mul" "mul \<le> 1"
    using Cons.prems by (simp_all add: l)
  have rest: "\<forall>l \<in> set ls. 0 \<le> fst l \<and> fst l \<le> 1 \<and> 0 \<le> snd l \<and> snd l \<le> 1"
    using Cons.prems by simp
  show ?case
    by (simp add: l layer_size_exact [OF assms(4) r(3,4)]
        layer_alpha_finite [OF assms(1,2,3) r(1,2)] Cons.IH [OF rest])
qed

lemma layers_ok: "\<forall>l \<in> set layers. 0 \<le> fst l \<and> fst l \<le> 1 \<and> 0 \<le> snd l \<and> snd l \<le> 1"
  using layers_range by auto

lemma paintEvent_original_finite:
  assumes "brightness self = Fin b" and "0 \<le> b" and "b \<le> 2" and "\<bar>bloom_t self w h\<bar> < 2 ^ 53"
  shows "paintEvent_original self w h =
     (concat (map (\<lambda>(intensity, mul).
        layer_bands (color self) w h (max 1 (trunc (nearest (of_int (bloom_t self w h) * mul))))
          (clamp (trunc (nearest (nearest (255 * b) * intensity))) 0 220)) layers), None)"
  unfolding paintEvent_original_def
  by (rule paint_layers_finite [OF assms layers_ok])

lemma alpha_init: "alpha init = Inr 255"
proof -
  have "alpha init = Inr (clamp (trunc (nearest (255 * 1))) 0 255)"
    by (rule alpha_finite) (simp_all add: init_def)
  moreover have "nearest (255 * 1) = 255"
    using nearest_of_int [of 255] by simp
  ultimately show ?thesis
    by (simp add: clamp_def trunc_def)
qed

lemma fl_overflow:
  assumes "2 ^ 1024 \<le> q"
  shows "fl q = PosInf"
proof -
  have "nearest (2 ^ 1024) = (2::rat) ^ 1024"
    using nearest_exact [of 1 1024] by simp
  then have "2 ^ 1024 \<le> nearest q"
    using nearest_mono [OF assms] by simp
  then show ?thesis
    by (simp add: fl_def Let_def)
qed

lemma set_brightness_percent_fin:
  assumes "to_double v = Inr (Fin x)"
  shows "set_brightness_percent self (Num v) =
     Inr (self\<lparr>brightness := py_max MIN_BRIGHTNESS (py_min MAX_BRIGHTNESS (fl (x / 100)))\<rparr>,
          if float_le (Fin 0) (as_float v) \<and> float_le (as_float v) (Fin 200) then []
          else [BrightnessOutOfRange])"
  using assms
  by (simp add: set_brightness_percent_def MIN_BRIGHTNESS_PERCENT_def MAX_BRIGHTNESS_PERCENT_def
      del: to_double.simps)

lemma set_brightness_percent_int_in:
  assumes "0 \<le> i" and "i \<le> 200"
  shows "set_brightness_percent self (Num (PyInt i)) =
     Inr (self\<lparr>brightness := Fin (nearest (of_int i / 100))\<rparr>, [])"
proof -
  have "to_double (PyInt i) = Inr (Fin (of_int i))"
    using assms by (intro to_double_int_exact) simp
  moreover have "(0::rat) \<le> of_int i / 100" "(of_int i :: rat) / 100 \<le> 2"
    using assms by simp_all
  ultimately show ?thesis
    using assms by (simp add: set_brightness_percent_fin clamp_fl_in del: to_double.simps)
qed

lemma int_above:
  assumes "200 < i" and "\<not> isl (to_double (PyInt i))"
  shows "to_double (PyInt i) = Inr (Fin (nearest (of_int i)))" and "2 \<le> nearest (of_int i) / 100"
proof -
  show "to_double (PyInt i) = Inr (Fin (nearest (of_int i)))"
    using assms(2) by (rule to_double_int_value)
  have "(of_int 200 :: rat) \<le> of_int i"
    using assms(1) by (simp only: of_int_le_iff)
  then have "of_int 200 \<le> nearest (of_int i)"
    by (intro nearest_ge_int) simp_all
  then show "2 \<le> nearest (of_int i) / 100" by simp
qed

lemma int_below:
  assumes "i < 0" and "\<not> isl (to_double (PyInt i))"
  shows "to_double (PyInt i) = Inr (Fin (nearest (of_int i)))" and "nearest (of_int i) / 100 \<le> 0"
proof -
  show "to_double (PyInt i) = Inr (Fin (nearest (of_int i)))"
    using assms(2) by (rule to_double_int_value)
  have "(of_int i :: rat) \<le> of_int 0"
    using assms(1) by (simp only: of_int_le_iff)
  then have "nearest (of_int i) \<le> of_int 0"
    by (intro nearest_le_int) simp_all
  then show "nearest (of_int i) / 100 \<le> 0" by simp
qed

lemma set_brightness_percent_int_above_gen:
  assumes "200 < i" and "\<not> isl (to_double (PyInt i))"
  shows "set_brightness_percent self (Num (PyInt i)) =
     Inr (self\<lparr>brightness := Fin 2\<rparr>, [BrightnessOutOfRange])"
  using assms(1) int_above [OF assms]
  by (simp add: set_brightness_percent_fin clamp_fl_above del: to_double.simps)

lemma set_brightness_percent_int_below_gen:
  assumes "i < 0" and "\<not> isl (to_double (PyInt i))"
  shows "set_brightness_percent self (Num (PyInt i)) =
     Inr (self\<lparr>brightness := Fin 0\<rparr>, [BrightnessOutOfRange])"
  using assms(1) int_below [OF assms]
  by (simp add: set_brightness_percent_fin clamp_fl_below del: to_double.simps)

lemma set_brightness_percent_int_above:
  assumes "200 < i" and "i < 2 ^ 53"
  shows "set_brightness_percent self (Num (PyInt i)) =
     Inr (self\<lparr>brightness := Fin 2\<rparr>, [BrightnessOutOfRange])"
proof -
  have "to_double (PyInt i) = Inr (Fin (of_int i))"
    using assms by (intro to_double_int_exact) simp
  then have "\<not> isl (to_double (PyInt i))" by simp
  with assms(1) show ?thesis by (rule set_brightness_percent_int_above_gen)
qed

lemma set_brightness_percent_float:
  "0 \<le> q \<Longrightarrow> q \<le> 200 \<Longrightarrow>
     set_brightness_percent self (Num (PyFloat (Fin q))) =
       Inr (self\<lparr>brightness := Fin (nearest (q / 100))\<rparr>, [])"
  "200 < q \<Longrightarrow>
     set_brightness_percent self (Num (PyFloat (Fin q))) =
       Inr (self\<lparr>brightness := Fin 2\<rparr>, [BrightnessOutOfRange])"
  "q < 0 \<Longrightarrow>
     set_brightness_percent self (Num (PyFloat (Fin q))) =
       Inr (self\<lparr>brightness := Fin 0\<rparr>, [BrightnessOutOfRange])"
  by (simp_all add: set_brightness_percent_fin clamp_fl_in clamp_fl_above clamp_fl_below)

lemma set_brightness_percent_special:
  "set_brightness_percent self (Num (PyFloat PosInf)) =
     Inr (self\<lparr>brightness := Fin 2\<rparr>, [BrightnessOutOfRange])"
  "set_brightness_percent self (Num (PyFloat NegInf)) =
     Inr (self\<lparr>brightness := Fin 0\<rparr>, [BrightnessOutOfRange])"
  "set_brightness_percent self (Num (PyFloat NaN)) =
     Inr (self\<lparr>brightness := Fin 2\<rparr>, [BrightnessOutOfRange])"
  by (simp_all add: set_brightness_percent_def clamp_brightness_special
      MIN_BRIGHTNESS_PERCENT_def MAX_BRIGHTNESS_PERCENT_def)

lemma set_brightness_percent_original_same:
  "set_brightness_percent self (Num v) = Inr (self', ws) \<Longrightarrow>
   set_brightness_percent_original self v = Inr self'"
  by (auto simp: set_brightness_percent_def set_brightness_percent_original_def Let_def
      split: sum.splits)

lemma nearest_three_fifths: "nearest (3 / 5) = 5404319552844595 / 9007199254740992"
  by (subst nearest_eval [where k = "- 1"]) (simp_all add: rne_def floor_rat_numeral)

lemma nearest_sixty_product: "nearest (255 * (5404319552844595 / 9007199254740992)) = 153"
  by (subst nearest_eval [where k = 7]) (simp_all add: rne_def floor_rat_numeral)

lemma effective_thickness_mono:
  "t1 \<le> t2 \<Longrightarrow>
   effective_thickness (self\<lparr>thickness := t1\<rparr>) w h \<le> effective_thickness (self\<lparr>thickness := t2\<rparr>) w h"
  by (simp add: effective_thickness_def)

lemma brightness_clamped: "brightness_in_range (py_max MIN_BRIGHTNESS (py_min MAX_BRIGHTNESS f))"
  by (cases f) (simp_all add: clamp_brightness clamp_brightness_special)

lemma params_ok_init: "params_ok init"
  by (simp add: params_ok_def init_def QColor_def qcolor_ok_def config_defs)

lemma set_brightness_percent_ok:
  "params_ok self \<Longrightarrow> set_brightness_percent self v = Inr (self', ws) \<Longrightarrow> params_ok self'"
  by (auto simp: set_brightness_percent_def params_ok_def brightness_clamped Let_def
      split: pyval.splits sum.splits)

lemma set_thickness_ok:
  "params_ok self \<Longrightarrow> set_thickness self v = Inr (self', ws) \<Longrightarrow> params_ok self'"
  by (auto simp: set_thickness_def params_ok_def Let_def split: pyval.splits sum.splits)

lemma set_color_ok:
  "params_ok self \<Longrightarrow> call_ok (SetColor a) \<Longrightarrow> set_color self a = Inr (self', ws) \<Longrightarrow>
   params_ok self'"
  by (auto simp: set_color_def params_ok_def split: color_arg.splits if_splits)

lemma after_call_ok: "params_ok self \<Longrightarrow> call_ok c \<Longrightarrow> params_ok (after_call self c)"
proof (cases "call_setter self c")
  case (Inl e)
  assume "params_ok self"
  with Inl show ?thesis by (simp add: after_call_def)
next
  case (Inr r)
  assume ok: "params_ok self" "call_ok c"
  obtain self' ws where r: "r = (self', ws)" by (cases r)
  have "params_ok self'"
  proof (cases c)
    case (SetBrightnessPercent v)
    with Inr r ok show ?thesis
      using set_brightness_percent_ok by (simp add: call_setter_def)
  next
    case (SetThickness v)
    with Inr r ok show ?thesis
      using set_thickness_ok by (simp add: call_setter_def)
  next
    case (SetColor a)
    with Inr r ok show ?thesis
      using set_color_ok by (simp add: call_setter_def)
  qed
  with Inr r show ?thesis by (simp add: after_call_def)
qed

lemma after_calls_ok:
  "params_ok self \<Longrightarrow> \<forall>c \<in> set cs. call_ok c \<Longrightarrow> params_ok (after_calls self cs)"
  unfolding after_calls_def
  by (induction cs arbitrary: self) (simp_all add: after_call_ok)

lemma to_double_overflow:
  assumes "2 ^ 1024 \<le> i"
  shows "to_double (PyInt i) = Inl OverflowError"
proof -
  have "(of_int (2 ^ 1024) :: rat) \<le> of_int i"
    using assms by (simp only: of_int_le_iff)
  then have "(2::rat) ^ 1024 \<le> of_int i"
    by (simp only: of_int_power of_int_numeral)
  then have "fl (of_int i) = PosInf"
    by (rule fl_overflow)
  then show ?thesis
    by (simp only: to_double.simps pyfloat.case)
qed

lemma set_brightness_percent_overflow:
  assumes "2 ^ 1024 \<le> i"
  shows "set_brightness_percent self (Num (PyInt i)) = Inl OverflowError"
  by (simp add: set_brightness_percent_def to_double_overflow [OF assms] del: to_double.simps)

lemma huge: "(2::int) ^ 1024 \<le> 10 ^ 400"
  by simp

lemma replicate_four: "replicate 4 a = [a, a, a, a]"
  by (simp add: numeral_eq_Suc)

lemma band_alpha_layer_bands: "map band_alpha (layer_bands base w h sz a) = replicate 4 a"
  by (simp add: layer_bands_def replicate_four)

lemma size_one:
  assumes "t \<le> 1" and "- (2 ^ 53) < t" and "0 \<le> mul" and "mul \<le> 1"
  shows "max 1 (trunc (nearest (of_int t * mul))) = 1"
proof -
  have "of_int t * mul \<le> 1"
  proof (cases "t \<le> 0")
    case True
    then have "(of_int t :: rat) \<le> 0" by simp
    then have "of_int t * mul \<le> 0"
      using assms(3) by (simp add: mult_le_0_iff)
    then show ?thesis by simp
  next
    case False
    with assms(1) have "t = 1" by simp
    with assms(4) show ?thesis by simp
  qed
  then have "of_int t * mul \<le> of_int 1" by simp
  then have "nearest (of_int t * mul) \<le> of_int 1"
    by (intro nearest_le_int) simp_all
  then have "trunc (nearest (of_int t * mul)) \<le> 1"
    by (intro trunc_le_one) simp
  then show ?thesis by simp
qed

lemma concat_map_cong:
  "(\<And>x. x \<in> set xs \<Longrightarrow> f x = g x) \<Longrightarrow> concat (map f xs) = concat (map g xs)"
  by (induction xs) simp_all

lemma paintEvent_original_degenerate:
  assumes "w \<le> 0 \<or> h \<le> 0" and "1 \<le> thickness self"
    and "brightness self = Fin b" and "0 \<le> b" and "b \<le> 2"
  shows "paintEvent_original self w h =
     (concat (map (\<lambda>(intensity, mul).
        layer_bands (color self) w h 1
          (clamp (trunc (nearest (nearest (255 * b) * intensity))) 0 220)) layers), None)"
proof -
  have "max 1 (min w h) = 1"
    using assms(1) by linarith
  then have t: "bloom_t self w h = 1"
    using assms(2) by (simp add: bloom_t_def)
  have "paintEvent_original self w h =
     (concat (map (\<lambda>(intensity, mul).
        layer_bands (color self) w h (max 1 (trunc (nearest (of_int 1 * mul))))
          (clamp (trunc (nearest (nearest (255 * b) * intensity))) 0 220)) layers), None)"
    using paintEvent_original_finite [OF assms(3,4,5), of w h] by (simp add: t)
  also have "concat (map (\<lambda>(intensity, mul).
        layer_bands (color self) w h (max 1 (trunc (nearest (of_int 1 * mul))))
          (clamp (trunc (nearest (nearest (255 * b) * intensity))) 0 220)) layers)
     = concat (map (\<lambda>(intensity, mul).
        layer_bands (color self) w h 1
          (clamp (trunc (nearest (nearest (255 * b) * intensity))) 0 220)) layers)"
  proof (rule concat_map_cong)
    fix l assume l: "l \<in> set layers"
    obtain intensity mul where lm: "l = (intensity, mul)" by (cases l)
    have "max 1 (trunc (nearest (of_int 1 * mul))) = 1"
      using layers_range [of intensity mul] l lm by (intro size_one) simp_all
    then show "(case l of (intensity, mul) \<Rightarrow>
        layer_bands (color self) w h (max 1 (trunc (nearest (of_int 1 * mul))))
          (clamp (trunc (nearest (nearest (255 * b) * intensity))) 0 220))
      = (case l of (intensity, mul) \<Rightarrow>
        layer_bands (color self) w h 1
          (clamp (trunc (nearest (nearest (255 * b) * intensity))) 0 220))"
      by (simp add: lm)
  qed
  finally show ?thesis .
qed

lemma default_brightness_range: "0 \<le> nearest (4 / 5)" "nearest (4 / 5) \<le> 2"
proof -
  show "0 \<le> nearest (4 / 5)" by (rule nearest_nonneg) simp
  have "nearest (4 / 5) \<le> of_int 2" by (rule nearest_le_int) simp_all
  then show "nearest (4 / 5) \<le> 2" by simp
qed

lemma base_layer_bands:
  assumes "brightness self = Fin b" and "0 \<le> b" and "b \<le> 2" and "\<bar>bloom_t self w h\<bar> < 2 ^ 53"
  shows "take 4 (fst (paintEvent_original self w h)) =
           layer_bands (color self) w h (max 1 (bloom_t self w h))
             (clamp (trunc (nearest (nearest (255 * b)))) 0 220)"
  unfolding paintEvent_original_finite [OF assms]
  by (simp add: layers_def layer_bands_def nearest_of_int [OF assms(4)] trunc_of_int)

lemma bloom_t_range:
  assumes "qt_int w" and "qt_int h" and "1 \<le> thickness self \<or> min w h \<le> thickness self"
  shows "\<bar>bloom_t self w h\<bar> < 2 ^ 53"
proof -
  define B :: int where "B = 2 ^ 31"
  define m where "m = max 1 (min w h)"
  define t where "t = thickness self"
  have B: "1 < B" "B < 2 ^ 53"
    by (simp_all add: B_def)
  have wh: "- B \<le> w" "w < B" "- B \<le> h" "h < B"
    using assms(1,2) by (simp_all add: qt_int_def B_def)
  have m: "1 \<le> m" "m < B" "min w h \<le> m"
    using wh B(1) by (auto simp: m_def)
  have lo: "- B \<le> min w h"
    using wh by simp
  have c: "1 \<le> t \<or> min w h \<le> t"
    using assms(3) by (simp add: t_def)
  have "min t m \<le> m"
    by simp
  moreover have "- B \<le> min t m"
    using c lo m(1) B(1) by (auto simp: min_def)
  ultimately have "- B \<le> min t m" "min t m < B"
    using m(2) by simp_all
  then have "\<bar>min t m\<bar> < 2 ^ 53"
    using B(2) by linarith
  then show ?thesis
    by (simp add: bloom_t_def m_def t_def)
qed

lemma size_capped:
  assumes "min w h \<le> thickness self" and "qt_int w" and "qt_int h" and "0 \<le> mul" and "mul \<le> 1"
  shows "max 1 (trunc (nearest (of_int (bloom_t self w h) * mul)))
       = max 1 (trunc (nearest (of_int (min w h) * mul)))"
proof (cases "1 \<le> min w h")
  case True
  with assms(1) have "bloom_t self w h = min w h"
    by (simp add: bloom_t_def)
  then show ?thesis by simp
next
  case False
  define B :: int where "B = 2 ^ 31"
  have B: "B < 2 ^ 53" by (simp add: B_def)
  have lo: "- B \<le> min w h"
    using assms(2,3) by (simp add: qt_int_def B_def)
  have m0: "min w h \<le> 0"
    using False by linarith
  have "max 1 (min w h) = 1"
    using False by linarith
  then have t: "bloom_t self w h = min (thickness self) 1"
    by (simp add: bloom_t_def)
  have t1: "bloom_t self w h \<le> 1"
    by (simp add: t)
  have "- B \<le> bloom_t self w h"
    unfolding t using assms(1) lo m0 by (auto simp: min_def)
  then have t2: "- (2 ^ 53) < bloom_t self w h"
    using B by linarith
  have m2: "- (2 ^ 53) < min w h" "min w h \<le> 1"
    using lo B m0 by linarith+
  have "max 1 (trunc (nearest (of_int (bloom_t self w h) * mul))) = 1"
    using t1 t2 assms(4,5) by (rule size_one)
  moreover have "max 1 (trunc (nearest (of_int (min w h) * mul))) = 1"
    using m2(2) m2(1) assms(4,5) by (rule size_one)
  ultimately show ?thesis by simp
qed

lemma paintEvent_original_capped:
  assumes "min w h \<le> thickness self" and "brightness self = Fin b" and "0 \<le> b" and "b \<le> 2"
    and "qt_int w" and "qt_int h"
  shows "paintEvent_original self w h =
     (concat (map (\<lambda>(intensity, mul).
        layer_bands (color self) w h (max 1 (trunc (nearest (of_int (min w h) * mul))))
          (clamp (trunc (nearest (nearest (255 * b) * intensity))) 0 220)) layers), None)"
proof -
  have t: "\<bar>bloom_t self w h\<bar> < 2 ^ 53"
    using assms(5,6,1) by (intro bloom_t_range) simp_all
  have "concat (map (\<lambda>(intensity, mul).
        layer_bands (color self) w h (max 1 (trunc (nearest (of_int (bloom_t self w h) * mul))))
          (clamp (trunc (nearest (nearest (255 * b) * intensity))) 0 220)) layers)
     = concat (map (\<lambda>(intensity, mul).
        layer_bands (color self) w h (max 1 (trunc (nearest (of_int (min w h) * mul))))
          (clamp (trunc (nearest (nearest (255 * b) * intensity))) 0 220)) layers)"
  proof (rule concat_map_cong)
    fix l assume l: "l \<in> set layers"
    obtain intensity mul where lm: "l = (intensity, mul)" by (cases l)
    have "max 1 (trunc (nearest (of_int (bloom_t self w h) * mul)))
        = max 1 (trunc (nearest (of_int (min w h) * mul)))"
      using layers_range [of intensity mul] l lm
      by (intro size_capped [OF assms(1,5,6)]) simp_all
    then show "(case l of (intensity, mul) \<Rightarrow>
        layer_bands (color self) w h (max 1 (trunc (nearest (of_int (bloom_t self w h) * mul))))
          (clamp (trunc (nearest (nearest (255 * b) * intensity))) 0 220))
      = (case l of (intensity, mul) \<Rightarrow>
        layer_bands (color self) w h (max 1 (trunc (nearest (of_int (min w h) * mul))))
          (clamp (trunc (nearest (nearest (255 * b) * intensity))) 0 220))"
      by (simp add: lm)
  qed
  then show ?thesis
    by (simp only: paintEvent_original_finite [OF assms(2,3,4) t])
qed

lemma nearest_three_quarters: "nearest (3 / 4) = 3 / 4"
proof -
  have e: "(of_int 3 :: rat) * 2 powi (- 2) = 3 / 4" by simp
  have "nearest (of_int 3 * 2 powi (- 2)) = of_int 3 * 2 powi (- 2)"
    by (rule nearest_exact) simp_all
  then show ?thesis by (simp only: e)
qed

lemma nearest_eleven_twentieths: "nearest (11 / 20) = 2476979795053773 / 4503599627370496"
  by (subst nearest_eval [where k = "- 1"]) (simp_all add: rne_def floor_rat_numeral)

lemma nearest_two_fifths: "nearest (2 / 5) = 3602879701896397 / 9007199254740992"
  by (subst nearest_eval [where k = "- 2"]) (simp_all add: rne_def floor_rat_numeral)

lemma sizes_200:
  "trunc (nearest 200) = 200"
  "trunc (nearest (200 * nearest (3 / 4))) = 150"
  "trunc (nearest (200 * nearest (11 / 20))) = 110"
  "trunc (nearest (200 * nearest (2 / 5))) = 80"
proof -
  show "trunc (nearest 200) = 200"
    using nearest_of_int [of 200] by (simp add: trunc_def)
  have a: "nearest (200 * (3 / 4)) = 150"
    using nearest_of_int [of 150] by simp
  show "trunc (nearest (200 * nearest (3 / 4))) = 150"
    by (subst nearest_three_quarters, subst a) (simp add: trunc_def)
  have b: "nearest (200 * (2476979795053773 / 4503599627370496))
      = 7740561859543041 / 70368744177664"
    by (subst nearest_eval [where k = 6]) (simp_all add: rne_def floor_rat_numeral)
  show "trunc (nearest (200 * nearest (11 / 20))) = 110"
    by (subst nearest_eleven_twentieths, subst b) (simp add: trunc_def floor_rat_numeral)
  have c: "nearest (200 * (3602879701896397 / 9007199254740992)) = 80"
    by (subst nearest_eval [where k = 6]) (simp_all add: rne_def floor_rat_numeral)
  show "trunc (nearest (200 * nearest (2 / 5))) = 80"
    by (subst nearest_two_fifths, subst c) (simp add: trunc_def floor_rat_numeral)
qed

subsection \<open>The rounded frame: thickness and inner rectangle\<close>

text \<open>
  C1, as stated, fails. On a 10 by 10 surface with the default parameters the floor
  \<^verbatim>\<open>max(MIN_THICKNESS, ...)\<close> makes the effective thickness 1, which is above
  \<open>min(width, height) / 2 - margin = -5\<close>, and the inner rectangle is 11, 11, -12, -12:
  its width and height are negative.
\<close>

theorem inner_rect_inverts_on_small_surface:
  "0 < (10::int)
   \<and> effective_thickness init 10 10 = 1
   \<and> \<not> of_int (effective_thickness init 10 10) \<le> (of_int (min 10 10) / 2 - of_int SCREEN_MARGIN :: rat)
   \<and> rw (inner_rect init 10 10) = - 12
   \<and> rh (inner_rect init 10 10) = - 12
   \<and> paintEvent init 10 10 =
       Filled \<lparr>fill_outer_rect = \<lparr>rx = 10, ry = 10, rw = - 10, rh = - 10\<rparr>,
               fill_outer_radius = 20,
               fill_inner_rect = \<lparr>rx = 11, ry = 11, rw = - 12, rh = - 12\<rparr>,
               fill_inner_radius = 19,
               fill_color = \<lparr>isValid = True, red = 255, green = 255, blue = 255\<rparr>,
               fill_alpha = 255\<rparr>"
  by (simp add: paintEvent_def alpha_init inner_rect_def outer_rect_def inner_radius_def
      effective_thickness_def max_thickness_def)
    (simp add: init_def QColor_def config_defs)

text \<open>
  C1, amended. When the smaller dimension is at least 22 pixels, the effective thickness
  is at most \<open>min(width, height) // 2 - margin\<close> (hence at most
  \<open>min(width, height) / 2 - margin\<close>) for every stored thickness, and the inner
  rectangle has neither negative width nor negative height.
\<close>

theorem effective_thickness_bound:
  assumes "22 \<le> min w h"
  shows "effective_thickness self w h \<le> min w h div 2 - SCREEN_MARGIN
       \<and> of_int (effective_thickness self w h) \<le> (of_int (min w h) / 2 - of_int SCREEN_MARGIN :: rat)
       \<and> 0 \<le> rw (inner_rect self w h)
       \<and> 0 \<le> rh (inner_rect self w h)"
proof -
  define m where "m = min w h"
  define d where "d = m div 2"
  define e where "e = effective_thickness self w h"
  have m: "22 \<le> m" "m \<le> w" "m \<le> h"
    using assms by (simp_all add: m_def)
  have d: "11 \<le> d" "2 * d \<le> m"
    using m(1) by (simp_all add: d_def)
  have e: "e \<le> d - 10"
    using d(1)
    by (simp add: e_def d_def m_def effective_thickness_def max_thickness_def config_defs)
  have e2: "2 * e \<le> m - 20"
    using e d(2) by linarith
  then have "(of_int (2 * e) :: rat) \<le> of_int (m - 20)"
    by (simp only: of_int_le_iff)
  then have "2 * (of_int e :: rat) \<le> of_int m - 20"
    by simp
  then have r: "(of_int e :: rat) \<le> of_int m / 2 - 10"
    by linarith
  have "2 * e \<le> w - 20" "2 * e \<le> h - 20"
    using e2 m by linarith+
  then have "0 \<le> w - 2 * (10 + e)" "0 \<le> h - 2 * (10 + e)"
    by simp_all
  with e r show ?thesis
    by (simp add: inner_rect_def SCREEN_MARGIN_def e_def [symmetric] m_def [symmetric]
        d_def [symmetric])
qed

theorem effective_thickness_bound_witness:
  "22 \<le> min (200::int) 200
   \<and> effective_thickness (init\<lparr>thickness := 900\<rparr>) 200 200 = 90
   \<and> 90 \<le> min (200::int) 200 div 2 - SCREEN_MARGIN
   \<and> inner_rect (init\<lparr>thickness := 900\<rparr>) 200 200 = \<lparr>rx = 100, ry = 100, rw = 0, rh = 0\<rparr>
   \<and> 0 \<le> rw (inner_rect (init\<lparr>thickness := 900\<rparr>) 200 200)"
proof -
  have h: "22 \<le> min (200::int) 200" by simp
  show ?thesis
    using h effective_thickness_bound [OF h, of "init\<lparr>thickness := 900\<rparr>"]
    by (simp add: inner_rect_def effective_thickness_def max_thickness_def config_defs)
qed

subsection \<open>The rounded frame: inner corner radius\<close>

text \<open>
  C9. The inner radius is \<open>max(0, radius - effective_thickness)\<close> with radius 20.
  With the surface and the other parameters fixed it does not grow when the thickness
  grows, and it is 0 whenever the effective thickness is at least 20.
\<close>

theorem inner_radius_antimono:
  assumes "t1 \<le> t2"
  shows "inner_radius (self\<lparr>thickness := t2\<rparr>) w h \<le> inner_radius (self\<lparr>thickness := t1\<rparr>) w h
       \<and> inner_radius self w h = max 0 (OUTER_CORNER_RADIUS - effective_thickness self w h)
       \<and> (20 \<le> effective_thickness self w h \<longrightarrow> inner_radius self w h = 0)"
  using effective_thickness_mono [OF assms, of self w h]
  by (simp add: inner_radius_def OUTER_CORNER_RADIUS_def)

theorem inner_radius_antimono_witness:
  "(5::int) \<le> 12
   \<and> inner_radius (init\<lparr>thickness := 12\<rparr>) 1920 1080 = 8
   \<and> inner_radius (init\<lparr>thickness := 5\<rparr>) 1920 1080 = 15
   \<and> (8::int) \<le> 15
   \<and> 20 \<le> effective_thickness init 1920 1080
   \<and> inner_radius init 1920 1080 = 0"
proof -
  have h: "(5::int) \<le> 12" by simp
  show ?thesis
    using h inner_radius_antimono [OF h, of init 1920 1080]
    by (simp add: inner_radius_def effective_thickness_def max_thickness_def init_def config_defs)
qed

subsection \<open>The rounded frame: alpha\<close>

text \<open>
  C2, as stated, fails. At brightness \<open>1/8\<close> (12.5 %, a double) the code computes
  \<^verbatim>\<open>int(255 * 0.125) = int(31.875) = 31\<close>, while rounding gives 32.
\<close>

theorem alpha_truncates_not_rounds:
  "(0::rat) \<le> 1 / 8 \<and> (1 / 8 :: rat) \<le> 2
   \<and> alpha (init\<lparr>brightness := Fin (1 / 8)\<rparr>) = Inr 31
   \<and> spec_effective_alpha (1 / 8) = 32"
proof -
  have a: "alpha (init\<lparr>brightness := Fin (1 / 8)\<rparr>) = Inr (clamp (trunc (nearest (255 * (1 / 8)))) 0 255)"
    by (rule alpha_finite) simp_all
  have e: "(of_int 255 :: rat) * 2 powi (- 3) = 255 / 8"
    by simp
  have "nearest (of_int 255 * 2 powi (- 3)) = of_int 255 * 2 powi (- 3)"
    by (rule nearest_exact) simp_all
  then have n: "nearest (255 / 8) = 255 / 8"
    by (simp only: e)
  show ?thesis
    by (simp add: a n spec_effective_alpha_def clamp_def trunc_def round_def floor_rat_numeral)
qed

text \<open>
  C2, amended. For every brightness \<open>b\<close> in \<open>[0, 2]\<close> the fill alpha is
  \<open>clamp(int(255 * b), 0, 255)\<close>, where \<open>255 * b\<close> is the double product and
  \<^verbatim>\<open>int()\<close> truncates it: it is not rounded to the nearest integer, and it lies
  between the clamped floor and the clamped ceiling of the exact product. For every
  \<open>b \<ge> 1\<close> it is exactly 255. On a surface with positive width and height this is
  the alpha of the fill that \<^verbatim>\<open>paintEvent\<close> produces. At the double that the
  slider's 60 % stores the alpha is 153.
\<close>

theorem alpha_clamped_truncation:
  assumes "brightness self = Fin b" and "0 \<le> b" and "b \<le> 2"
  shows "alpha self = Inr (clamp (trunc (nearest (255 * b))) 0 255)
       \<and> clamp \<lfloor>255 * b\<rfloor> 0 255 \<le> clamp (trunc (nearest (255 * b))) 0 255
       \<and> clamp (trunc (nearest (255 * b))) 0 255 \<le> clamp \<lceil>255 * b\<rceil> 0 255
       \<and> (1 \<le> b \<longrightarrow> alpha self = Inr 255)
       \<and> (0 < w \<and> 0 < h \<longrightarrow>
            paintEvent self w h =
              Filled \<lparr>fill_outer_rect = outer_rect w h,
                      fill_outer_radius = OUTER_CORNER_RADIUS,
                      fill_inner_rect = inner_rect self w h,
                      fill_inner_radius = inner_radius self w h,
                      fill_color = color self,
                      fill_alpha = clamp (trunc (nearest (255 * b))) 0 255\<rparr>)"
proof -
  define x where "x = 255 * b"
  define p where "p = nearest x"
  have x: "0 \<le> x" "x \<le> 510"
    using assms(2,3) by (simp_all add: x_def)
  have p0: "0 \<le> p"
    using x(1) unfolding p_def by (rule nearest_nonneg)
  have t: "trunc p = \<lfloor>p\<rfloor>"
    using p0 by (simp add: trunc_def)
  have a: "alpha self = Inr (clamp (trunc p) 0 255)"
    using alpha_finite [OF assms] by (simp add: p_def x_def)
  have fx: "\<bar>\<lfloor>x\<rfloor>\<bar> < 2 ^ 53" "\<bar>\<lceil>x\<rceil>\<bar> < 2 ^ 53"
  proof -
    have "0 \<le> \<lfloor>x\<rfloor>" "\<lfloor>x\<rfloor> \<le> 510" "0 \<le> \<lceil>x\<rceil>" "\<lceil>x\<rceil> \<le> 510"
      using x by (simp_all add: floor_le_iff ceiling_le_iff le_ceiling_iff)
    then show "\<bar>\<lfloor>x\<rfloor>\<bar> < 2 ^ 53" "\<bar>\<lceil>x\<rceil>\<bar> < 2 ^ 53"
      by simp_all
  qed
  have "of_int \<lfloor>x\<rfloor> \<le> p"
    unfolding p_def using fx(1) by (intro nearest_ge_int) simp_all
  then have lo: "\<lfloor>x\<rfloor> \<le> trunc p"
    by (simp add: t le_floor_iff)
  have "p \<le> of_int \<lceil>x\<rceil>"
    unfolding p_def using fx(2) by (intro nearest_le_int) simp_all
  moreover have "of_int \<lfloor>p\<rfloor> \<le> p"
    by simp
  ultimately have "(of_int \<lfloor>p\<rfloor> :: rat) \<le> of_int \<lceil>x\<rceil>"
    by linarith
  then have hi: "trunc p \<le> \<lceil>x\<rceil>"
    by (simp only: t of_int_le_iff)
  have one: "clamp (trunc p) 0 255 = 255" if "1 \<le> b"
  proof -
    have "of_int 255 \<le> x" using that by (simp add: x_def)
    then have "of_int 255 \<le> p"
      unfolding p_def by (intro nearest_ge_int) simp_all
    then have "255 \<le> trunc p"
      by (simp add: t le_floor_iff)
    then show ?thesis by (simp add: clamp_def)
  qed
  from a lo hi one show ?thesis
    by (simp add: paintEvent_def clamp_def p_def x_def) linarith
qed

theorem alpha_clamped_truncation_witness:
  "alpha (init\<lparr>brightness := Fin (5404319552844595 / 9007199254740992)\<rparr>) = Inr 153
   \<and> alpha (init\<lparr>brightness := Fin (3 / 2)\<rparr>) = Inr 255
   \<and> paintEvent (init\<lparr>brightness := Fin (3 / 2)\<rparr>) 1920 1080 =
        Filled \<lparr>fill_outer_rect = outer_rect 1920 1080,
                fill_outer_radius = OUTER_CORNER_RADIUS,
                fill_inner_rect = inner_rect init 1920 1080,
                fill_inner_radius = inner_radius init 1920 1080,
                fill_color = color init,
                fill_alpha = 255\<rparr>"
proof -
  let ?s = "init\<lparr>brightness := Fin (5404319552844595 / 9007199254740992)\<rparr>"
  let ?u = "init\<lparr>brightness := Fin (3 / 2)\<rparr>"
  have "alpha ?s = Inr (clamp (trunc (nearest (255 * (5404319552844595 / 9007199254740992)))) 0 255)"
    by (rule alpha_clamped_truncation [of ?s _ 1 1, THEN conjunct1]) simp_all
  then have a: "alpha ?s = Inr 153"
    by (simp only: nearest_sixty_product) (simp add: clamp_def trunc_def)
  have u: "brightness ?u = Fin (3 / 2)" "(0::rat) \<le> 3 / 2" "(3 / 2 :: rat) \<le> 2"
    by simp_all
  note r = alpha_clamped_truncation [OF u, of 1920 1080]
  have "(1::rat) \<le> 3 / 2 \<longrightarrow> alpha ?u = Inr 255"
    using r by blast
  then have b: "alpha ?u = Inr 255"
    by simp
  have c: "paintEvent ?u 1920 1080 =
        Filled \<lparr>fill_outer_rect = outer_rect 1920 1080,
                fill_outer_radius = OUTER_CORNER_RADIUS,
                fill_inner_rect = inner_rect init 1920 1080,
                fill_inner_radius = inner_radius init 1920 1080,
                fill_color = color init,
                fill_alpha = 255\<rparr>"
    using b by (simp add: paintEvent_def inner_rect_def inner_radius_def effective_thickness_def)
  from a b c show ?thesis by simp
qed

subsection \<open>The setters\<close>




text \<open>
  C5, as stated, fails. The int \<open>10 ^ 400\<close> is outside \<open>[0, 200]\<close> and too large
  for a double: \<^verbatim>\<open>value_0_200 / 100.0\<close> raises \<^verbatim>\<open>OverflowError\<close>, the call
  is rejected and the brightness stays as it was. Within the range the stored value is the
  double quotient, which at 60 is \<open>5404319552844595 / 9007199254740992\<close>, below
  \<open>60 / 100\<close>.
\<close>

theorem set_brightness_percent_rejects_huge_int:
  "(200::int) < 10 ^ 400
   \<and> set_brightness_percent init (Num (PyInt (10 ^ 400))) = Inl OverflowError
   \<and> set_brightness_percent init (Num (PyInt 60))
       = Inr (init\<lparr>brightness := Fin (5404319552844595 / 9007199254740992)\<rparr>, [])
   \<and> (5404319552844595 / 9007199254740992 :: rat) < 60 / 100"
proof -
  have a: "set_brightness_percent init (Num (PyInt (10 ^ 400))) = Inl OverflowError"
    using huge by (rule set_brightness_percent_overflow)
  have b: "set_brightness_percent init (Num (PyInt 60))
       = Inr (init\<lparr>brightness := Fin (5404319552844595 / 9007199254740992)\<rparr>, [])"
    using set_brightness_percent_int_in [of 60 init] nearest_three_fifths by simp
  have c: "(200::int) < 10 ^ 400"
    using huge by simp
  have d: "(5404319552844595 / 9007199254740992 :: rat) < 60 / 100"
    by simp
  from a b c d show ?thesis
    by (intro conjI)
qed

text \<open>
  C5, amended. For every int or finite float \<open>v\<close> in \<open>[0, 200]\<close>,
  \<^verbatim>\<open>set_brightness_percent\<close> stores the double nearest to \<open>v / 100\<close> (the
  quotient \<^verbatim>\<open>v / 100.0\<close>), unclamped, and logs nothing. For every float above 200
  (also the positive infinity) and every int above 200 that a double can hold it stores
  2, for those below 0 it stores 0, in both cases with one warning and without raising
  (a nan fails the comparison too and leaves 2, with the warning).
  Whenever the setter of \<^verbatim>\<open>ringlight.py\<close> returns, the first version returns the
  same overlay (and has no warning to log).
\<close>

theorem set_brightness_percent_value:
  "(0 \<le> i \<and> i \<le> 200 \<longrightarrow>
      set_brightness_percent self (Num (PyInt i)) =
        Inr (self\<lparr>brightness := Fin (nearest (of_int i / 100))\<rparr>, []))
   \<and> (0 \<le> q \<and> q \<le> 200 \<longrightarrow>
        set_brightness_percent self (Num (PyFloat (Fin q))) =
          Inr (self\<lparr>brightness := Fin (nearest (q / 100))\<rparr>, []))
   \<and> (200 < i \<and> \<not> isl (to_double (PyInt i)) \<longrightarrow>
        set_brightness_percent self (Num (PyInt i)) =
          Inr (self\<lparr>brightness := Fin 2\<rparr>, [BrightnessOutOfRange]))
   \<and> (i < 0 \<and> \<not> isl (to_double (PyInt i)) \<longrightarrow>
        set_brightness_percent self (Num (PyInt i)) =
          Inr (self\<lparr>brightness := Fin 0\<rparr>, [BrightnessOutOfRange]))
   \<and> (200 < q \<longrightarrow>
        set_brightness_percent self (Num (PyFloat (Fin q))) =
          Inr (self\<lparr>brightness := Fin 2\<rparr>, [BrightnessOutOfRange]))
   \<and> (q < 0 \<longrightarrow>
        set_brightness_percent self (Num (PyFloat (Fin q))) =
          Inr (self\<lparr>brightness := Fin 0\<rparr>, [BrightnessOutOfRange]))
   \<and> set_brightness_percent self (Num (PyFloat PosInf)) =
        Inr (self\<lparr>brightness := Fin 2\<rparr>, [BrightnessOutOfRange])
   \<and> set_brightness_percent self (Num (PyFloat NegInf)) =
        Inr (self\<lparr>brightness := Fin 0\<rparr>, [BrightnessOutOfRange])
   \<and> set_brightness_percent self (Num (PyFloat NaN)) =
        Inr (self\<lparr>brightness := Fin 2\<rparr>, [BrightnessOutOfRange])
   \<and> (set_brightness_percent self (Num v) = Inr (self', ws) \<longrightarrow>
        set_brightness_percent_original self v = Inr self')"
  using set_brightness_percent_int_in [of i self]
    set_brightness_percent_int_above_gen [of i self]
    set_brightness_percent_int_below_gen [of i self]
    set_brightness_percent_float [of q self]
    set_brightness_percent_special [of self]
    set_brightness_percent_original_same [of self v self' ws]
  by blast

theorem set_brightness_percent_value_witness:
  "set_brightness_percent init (Num (PyInt 150)) = Inr (init\<lparr>brightness := Fin (3 / 2)\<rparr>, [])
   \<and> set_brightness_percent init (Num (PyFloat (Fin (25 / 2)))) =
        Inr (init\<lparr>brightness := Fin (1 / 8)\<rparr>, [])
   \<and> \<not> isl (to_double (PyInt 250))
   \<and> set_brightness_percent init (Num (PyInt 250)) =
        Inr (init\<lparr>brightness := Fin 2\<rparr>, [BrightnessOutOfRange])
   \<and> set_brightness_percent init (Num (PyFloat (Fin (- 1)))) =
        Inr (init\<lparr>brightness := Fin 0\<rparr>, [BrightnessOutOfRange])
   \<and> set_brightness_percent_original init (PyInt 150) = Inr (init\<lparr>brightness := Fin (3 / 2)\<rparr>)"
proof -
  have n1: "nearest (of_int 150 / 100) = 3 / 2"
    using nearest_exact [of 3 "- 1"] by simp
  have n2: "nearest (25 / 2 / 100) = 1 / 8"
    using nearest_exact [of 1 "- 3"] by simp
  have d: "\<not> isl (to_double (PyInt 250))"
    using to_double_int_exact [of 250] by simp
  have a: "set_brightness_percent init (Num (PyInt 150)) = Inr (init\<lparr>brightness := Fin (3 / 2)\<rparr>, [])"
    using set_brightness_percent_value [of 150 init "25 / 2" "PyInt 150"] n1 by simp
  show ?thesis
    using a d n1 n2
      set_brightness_percent_value [of 150 init "25 / 2" "PyInt 150"
        "init\<lparr>brightness := Fin (3 / 2)\<rparr>" "[]"]
      set_brightness_percent_value [of 250 init "- 1" "PyInt 150"
        "init\<lparr>brightness := Fin (3 / 2)\<rparr>" "[]"]
    by (simp del: to_double.simps)
qed

text \<open>
  C3, as stated, fails. \<^verbatim>\<open>set_thickness\<close> clamps from below only: after
  \<^verbatim>\<open>set_thickness(1000)\<close> on the defaults the stored thickness is 1000, above
  \<^verbatim>\<open>MAX_THICKNESS = 900\<close>.
\<close>

theorem set_thickness_has_no_upper_clamp:
  "call_ok (SetThickness (Num (PyInt 1000)))
   \<and> thickness (after_calls init [SetThickness (Num (PyInt 1000))]) = 1000
   \<and> \<not> thickness (after_calls init [SetThickness (Num (PyInt 1000))]) \<le> MAX_THICKNESS"
  by (simp add: after_calls_def after_call_def call_setter_def set_thickness_def config_defs)

text \<open>
  C3, amended. After every sequence of setter calls starting from the defaults (the
  \<^verbatim>\<open>QColor\<close> arguments being Qt colours) the stored thickness is at least 1, with
  no upper bound, the brightness is a finite value in \<open>[0, 2]\<close>, and the colour is
  valid with every channel in \<open>[0, 255]\<close>. Every call of \<^verbatim>\<open>set_thickness\<close>
  that returns leaves a thickness of at least 1.
\<close>

theorem setters_keep_parameters_valid:
  assumes "\<forall>c \<in> set cs. call_ok c"
  shows "1 \<le> thickness (after_calls init cs)
       \<and> brightness_in_range (brightness (after_calls init cs))
       \<and> qcolor_ok (color (after_calls init cs))
       \<and> (set_thickness self v = Inr (self', ws) \<longrightarrow> 1 \<le> thickness self')"
proof -
  have "params_ok (after_calls init cs)"
    using params_ok_init assms by (rule after_calls_ok)
  moreover have "set_thickness self v = Inr (self', ws) \<longrightarrow> 1 \<le> thickness self'"
    by (auto simp: set_thickness_def MIN_THICKNESS_def Let_def split: pyval.splits sum.splits)
  ultimately show ?thesis
    by (simp add: params_ok_def MIN_THICKNESS_def)
qed

theorem setters_keep_parameters_valid_witness:
  "list_all call_ok [SetThickness (Num (PyInt 1000)), SetBrightnessPercent (Num (PyInt 350)),
                 SetColor (AQColor (QColor 255 240 220)), SetColor PyNone,
                 SetThickness (Num (PyFloat (Fin (- 3))))]
   \<and> after_calls init [SetThickness (Num (PyInt 1000)), SetBrightnessPercent (Num (PyInt 350)),
                 SetColor (AQColor (QColor 255 240 220)), SetColor PyNone,
                 SetThickness (Num (PyFloat (Fin (- 3))))]
       = \<lparr>thickness = 1, brightness = Fin 2, color = QColor 255 240 220\<rparr>
   \<and> brightness_in_range (Fin 2)
   \<and> qcolor_ok (QColor 255 240 220)"
proof -
  let ?cs = "[SetThickness (Num (PyInt 1000)), SetBrightnessPercent (Num (PyInt 350)),
                 SetColor (AQColor (QColor 255 240 220)), SetColor PyNone,
                 SetThickness (Num (PyFloat (Fin (- 3))))]"
  have h: "\<forall>c \<in> set ?cs. call_ok c"
    by (simp add: QColor_def qcolor_ok_def)
  have v: "after_calls init ?cs = \<lparr>thickness = 1, brightness = Fin 2, color = QColor 255 240 220\<rparr>"
    by (simp add: after_calls_def after_call_def call_setter_def set_thickness_def
        set_brightness_percent_int_above set_color_def init_def QColor_def trunc_def
        MIN_THICKNESS_def DEFAULT_THICKNESS_def)
  show ?thesis
    using h v setters_keep_parameters_valid [OF h, of init NonNumeric init "[]"]
    by (simp add: list_all_iff)
qed




subsection \<open>Degenerate surfaces\<close>

text \<open>
  C6, as stated, fails for the layered bloom. On a surface of width 0 and height 100 the
  rounded frame returns without painting, but the bloom, which checks no dimension and
  floors its thickness at 1, goes through its four layers and issues sixteen gradient
  bands; those of the first layer are on the rectangles 0, 0, 0, 1 and 0, 99, 0, 1 and
  0, 0, 1, 100 and -1, 0, 1, 100. Neither raises.
\<close>

theorem bloom_paints_on_degenerate_surface:
  "paintEvent init 0 100 = Skipped InvalidDimensions
   \<and> length (fst (paintEvent_original init_original 0 100)) = 16
   \<and> map band_rect (take 4 (fst (paintEvent_original init_original 0 100)))
       = [\<lparr>rx = 0, ry = 0, rw = 0, rh = 1\<rparr>, \<lparr>rx = 0, ry = 99, rw = 0, rh = 1\<rparr>,
          \<lparr>rx = 0, ry = 0, rw = 1, rh = 100\<rparr>, \<lparr>rx = - 1, ry = 0, rw = 1, rh = 100\<rparr>]
   \<and> snd (paintEvent_original init_original 0 100) = None"
proof -
  have "paintEvent_original init_original 0 100 =
     (concat (map (\<lambda>(intensity, mul).
        layer_bands (color init_original) 0 100 1
          (clamp (trunc (nearest (nearest (255 * nearest (4 / 5)) * intensity))) 0 220)) layers),
      None)"
    by (rule paintEvent_original_degenerate)
      (simp_all add: init_original_def DEFAULT_THICKNESS_def default_brightness_range)
  then show ?thesis
    by (simp add: paintEvent_def layers_def layer_bands_def)
qed

text \<open>
  C6, amended. On every surface with \<open>width \<le> 0\<close> or \<open>height \<le> 0\<close> the rounded
  frame paints nothing and raises nothing, whatever the parameters. The layered bloom,
  for parameters in the setters' range, raises nothing either, but it does issue its
  sixteen gradient bands, every one of size 1.
\<close>

theorem degenerate_surface_rendering:
  assumes "w \<le> 0 \<or> h \<le> 0"
  shows "paintEvent self w h = Skipped InvalidDimensions
       \<and> (1 \<le> thickness self \<and> brightness self = Fin b \<and> 0 \<le> b \<and> b \<le> 2 \<longrightarrow>
            paintEvent_original self w h =
              (concat (map (\<lambda>(intensity, mul).
                 layer_bands (color self) w h 1
                   (clamp (trunc (nearest (nearest (255 * b) * intensity))) 0 220)) layers), None))"
  using assms paintEvent_original_degenerate [OF assms, of self b]
  by (simp add: paintEvent_def)

theorem degenerate_surface_rendering_witness:
  "paintEvent init 0 0 = Skipped InvalidDimensions
   \<and> map band_rect (fst (paintEvent_original init_original 0 0))
       = [\<lparr>rx = 0, ry = 0, rw = 0, rh = 1\<rparr>, \<lparr>rx = 0, ry = - 1, rw = 0, rh = 1\<rparr>,
          \<lparr>rx = 0, ry = 0, rw = 1, rh = 0\<rparr>, \<lparr>rx = - 1, ry = 0, rw = 1, rh = 0\<rparr>,
          \<lparr>rx = 0, ry = 0, rw = 0, rh = 1\<rparr>, \<lparr>rx = 0, ry = - 1, rw = 0, rh = 1\<rparr>,
          \<lparr>rx = 0, ry = 0, rw = 1, rh = 0\<rparr>, \<lparr>rx = - 1, ry = 0, rw = 1, rh = 0\<rparr>,
          \<lparr>rx = 0, ry = 0, rw = 0, rh = 1\<rparr>, \<lparr>rx = 0, ry = - 1, rw = 0, rh = 1\<rparr>,
          \<lparr>rx = 0, ry = 0, rw = 1, rh = 0\<rparr>, \<lparr>rx = - 1, ry = 0, rw = 1, rh = 0\<rparr>,
          \<lparr>rx = 0, ry = 0, rw = 0, rh = 1\<rparr>, \<lparr>rx = 0, ry = - 1, rw = 0, rh = 1\<rparr>,
          \<lparr>rx = 0, ry = 0, rw = 1, rh = 0\<rparr>, \<lparr>rx = - 1, ry = 0, rw = 1, rh = 0\<rparr>]
   \<and> snd (paintEvent_original init_original 0 0) = None"
proof -
  have h: "(0::int) \<le> 0 \<or> (0::int) \<le> 0" by simp
  have p: "1 \<le> thickness init_original
      \<and> brightness init_original = Fin (nearest (4 / 5))
      \<and> 0 \<le> nearest (4 / 5) \<and> nearest (4 / 5) \<le> 2"
    by (simp add: init_original_def DEFAULT_THICKNESS_def default_brightness_range)
  have q: "paintEvent init 0 0 = Skipped InvalidDimensions"
    using degenerate_surface_rendering [OF h, of init 1] by simp
  show ?thesis
    using p q degenerate_surface_rendering [OF h, of init_original "nearest (4 / 5)"]
    by (simp add: layers_def layer_bands_def)
qed

subsection \<open>The layered bloom\<close>

text \<open>
  C8, as stated, fails. At brightness \<open>1/8\<close> the base layer's alpha is
  \<^verbatim>\<open>int(255 * 0.125 * 1.00) = 31\<close>, while rounding gives 32.
\<close>

theorem layer_alpha_truncates_not_rounds:
  "layer_alpha (init_original\<lparr>brightness := Fin (1 / 8)\<rparr>) 1 = Inr 31
   \<and> spec_layer_alpha (1 / 8) 1 = 32
   \<and> map band_alpha (take 4 (fst (paintEvent_original (init_original\<lparr>brightness := Fin (1 / 8)\<rparr>) 1920 1080)))
       = [31, 31, 31, 31]"
proof -
  let ?s = "init_original\<lparr>brightness := Fin (1 / 8)\<rparr>"
  have e: "(of_int 255 :: rat) * 2 powi (- 3) = 255 / 8"
    by simp
  have "nearest (of_int 255 * 2 powi (- 3)) = of_int 255 * 2 powi (- 3)"
    by (rule nearest_exact) simp_all
  then have n: "nearest (255 / 8) = 255 / 8"
    by (simp only: e)
  have a: "layer_alpha ?s 1 = Inr (clamp (trunc (nearest (nearest (255 * (1 / 8)) * 1))) 0 220)"
    by (rule layer_alpha_finite) simp_all
  have t: "bloom_t ?s 1920 1080 = 220"
    by (simp add: bloom_t_def init_original_def DEFAULT_THICKNESS_def)
  have b: "take 4 (fst (paintEvent_original ?s 1920 1080)) =
           layer_bands (color ?s) 1920 1080 (max 1 (bloom_t ?s 1920 1080))
             (clamp (trunc (nearest (nearest (255 * (1 / 8))))) 0 220)"
    by (rule base_layer_bands) (simp_all add: t)
  show ?thesis
    by (simp add: a b n band_alpha_layer_bands replicate_four spec_layer_alpha_def clamp_def
        trunc_def round_def floor_rat_numeral)
qed

text \<open>
  C8, amended. For a brightness \<open>b\<close> in \<open>[0, 2]\<close>, a thickness of at least 1 and
  a surface of Qt, the four bands of every layer have alpha
  \<open>clamp(int(255 * b * intensity), 0, 220)\<close> for the layer's table intensity, the two
  products being double products and \<^verbatim>\<open>int()\<close> truncating, not rounding, and the
  loop raises nothing. With brightness 2 the base layer's alpha is exactly 220.
\<close>

theorem layer_alpha_clamped_truncation:
  assumes "brightness self = Fin b" and "0 \<le> b" and "b \<le> 2"
    and "1 \<le> thickness self" and "qt_int w" and "qt_int h"
  shows "map band_alpha (fst (paintEvent_original self w h)) =
           concat (map (\<lambda>(intensity, mul).
             replicate 4 (clamp (trunc (nearest (nearest (255 * b) * intensity))) 0 220)) layers)
       \<and> snd (paintEvent_original self w h) = None
       \<and> (b = 2 \<longrightarrow> map band_alpha (take 4 (fst (paintEvent_original self w h)))
                        = [220, 220, 220, 220])"
proof -
  have t: "\<bar>bloom_t self w h\<bar> < 2 ^ 53"
    using assms(5,6,4) by (intro bloom_t_range) simp_all
  note p = paintEvent_original_finite [OF assms(1,2,3) t]
  have "map band_alpha (fst (paintEvent_original self w h)) =
        concat (map (\<lambda>(intensity, mul).
             replicate 4 (clamp (trunc (nearest (nearest (255 * b) * intensity))) 0 220)) layers)"
    unfolding p
    by (simp add: map_concat comp_def case_prod_unfold band_alpha_layer_bands)
  moreover have "snd (paintEvent_original self w h) = None"
    by (simp add: p)
  moreover have "map band_alpha (take 4 (fst (paintEvent_original self w h))) = [220, 220, 220, 220]"
    if "b = 2"
  proof -
    have "nearest (of_int 510) = (of_int 510 :: rat)"
      by (rule nearest_of_int) simp
    then have n: "nearest 510 = (510 :: rat)" by simp
    show ?thesis
      unfolding base_layer_bands [OF assms(1,2,3) t]
      by (simp add: that n band_alpha_layer_bands replicate_four clamp_def trunc_def)
  qed
  ultimately show ?thesis by simp
qed

theorem layer_alpha_clamped_truncation_witness:
  "map band_alpha (take 4 (fst (paintEvent_original (init_original\<lparr>brightness := Fin 2\<rparr>) 1920 1080)))
       = [220, 220, 220, 220]
   \<and> snd (paintEvent_original (init_original\<lparr>brightness := Fin 2\<rparr>) 1920 1080) = None
   \<and> length (fst (paintEvent_original (init_original\<lparr>brightness := Fin 2\<rparr>) 1920 1080)) = 16"
proof -
  let ?s = "init_original\<lparr>brightness := Fin 2\<rparr>"
  have h: "brightness ?s = Fin 2" "(0::rat) \<le> 2" "(2::rat) \<le> 2" "1 \<le> thickness ?s"
    "qt_int 1920" "qt_int 1080"
    by (simp_all add: init_original_def DEFAULT_THICKNESS_def qt_int_def)
  note r = layer_alpha_clamped_truncation [OF h]
  have "length (map band_alpha (fst (paintEvent_original ?s 1920 1080))) = 16"
    unfolding r [THEN conjunct1] by (simp add: layers_def)
  then have "length (fst (paintEvent_original ?s 1920 1080)) = 16"
    by simp
  with r show ?thesis by simp
qed

text \<open>
  C10. The bloom caps the thickness at \<open>max(1, min(width, height))\<close>. For every
  thickness of at least \<open>min(width, height)\<close> (brightness in range, a surface of Qt)
  the sixteen bands it paints are those of size
  \<open>max(1, int(min(width, height) * size_multiplier))\<close>, layer by layer. On a surface
  with positive dimensions the base layer's size is the whole smaller dimension, so that
  its top and bottom bands (when the height is the smaller one) or its left and right
  bands (when the width is) both are the whole surface. The rounded frame, for a smaller
  dimension of at least 22, stops at \<open>min(width, height) // 2 - margin\<close>, strictly
  below.
\<close>

theorem bloom_thickness_capped_at_smaller_dimension:
  assumes "min w h \<le> thickness self" and "brightness self = Fin b" and "0 \<le> b" and "b \<le> 2"
    and "qt_int w" and "qt_int h"
  shows "bloom_t self w h = min (thickness self) (max 1 (min w h))
       \<and> paintEvent_original self w h =
           (concat (map (\<lambda>(intensity, mul).
              layer_bands (color self) w h (max 1 (trunc (nearest (of_int (min w h) * mul))))
                (clamp (trunc (nearest (nearest (255 * b) * intensity))) 0 220)) layers), None)
       \<and> (0 < w \<and> 0 < h \<longrightarrow>
            bloom_t self w h = min w h
            \<and> take 4 (fst (paintEvent_original self w h)) =
                layer_bands (color self) w h (min w h)
                  (clamp (trunc (nearest (nearest (255 * b)))) 0 220))
       \<and> (0 < w \<and> 0 < h \<and> h \<le> w \<longrightarrow>
            map band_rect (take 2 (fst (paintEvent_original self w h)))
              = [\<lparr>rx = 0, ry = 0, rw = w, rh = h\<rparr>, \<lparr>rx = 0, ry = 0, rw = w, rh = h\<rparr>])
       \<and> (0 < w \<and> 0 < h \<and> w \<le> h \<longrightarrow>
            map band_rect (drop 2 (take 4 (fst (paintEvent_original self w h))))
              = [\<lparr>rx = 0, ry = 0, rw = w, rh = h\<rparr>, \<lparr>rx = 0, ry = 0, rw = w, rh = h\<rparr>])
       \<and> (22 \<le> min w h \<longrightarrow>
            effective_thickness self w h = min w h div 2 - SCREEN_MARGIN
            \<and> effective_thickness self w h < bloom_t self w h)"
proof -
  have t: "\<bar>bloom_t self w h\<bar> < 2 ^ 53"
    using assms(5,6,1) by (intro bloom_t_range) simp_all
  have cap: "bloom_t self w h = min (thickness self) (max 1 (min w h))"
    by (simp add: bloom_t_def)
  note bands = paintEvent_original_capped [OF assms]
  have pos: "bloom_t self w h = min w h"
    if "0 < w" "0 < h"
    using that assms(1) by (simp add: bloom_t_def)
  have base: "take 4 (fst (paintEvent_original self w h)) =
                layer_bands (color self) w h (min w h)
                  (clamp (trunc (nearest (nearest (255 * b)))) 0 220)"
    if "0 < w" "0 < h"
  proof -
    have "max 1 (bloom_t self w h) = min w h"
      using that by (simp add: pos [OF that])
    then show ?thesis
      by (simp only: base_layer_bands [OF assms(2,3,4) t])
  qed
  have tb: "map band_rect (take 2 (fst (paintEvent_original self w h)))
              = [\<lparr>rx = 0, ry = 0, rw = w, rh = h\<rparr>, \<lparr>rx = 0, ry = 0, rw = w, rh = h\<rparr>]"
    if "0 < w" "0 < h" "h \<le> w"
  proof -
    have "take 2 (fst (paintEvent_original self w h))
          = take 2 (take 4 (fst (paintEvent_original self w h)))"
      by simp
    also have "\<dots> = take 2 (layer_bands (color self) w h h
        (clamp (trunc (nearest (nearest (255 * b)))) 0 220))"
      using that(3) by (simp add: base [OF that(1,2)])
    finally show ?thesis
      by (simp add: layer_bands_def)
  qed
  have lr: "map band_rect (drop 2 (take 4 (fst (paintEvent_original self w h))))
              = [\<lparr>rx = 0, ry = 0, rw = w, rh = h\<rparr>, \<lparr>rx = 0, ry = 0, rw = w, rh = h\<rparr>]"
    if "0 < w" "0 < h" "w \<le> h"
  proof -
    have "take 4 (fst (paintEvent_original self w h))
          = layer_bands (color self) w h w (clamp (trunc (nearest (nearest (255 * b)))) 0 220)"
      using that(3) by (simp add: base [OF that(1,2)])
    then show ?thesis
      by (simp add: layer_bands_def)
  qed
  have rounded: "effective_thickness self w h = min w h div 2 - SCREEN_MARGIN
      \<and> effective_thickness self w h < bloom_t self w h"
    if "22 \<le> min w h"
  proof -
    define m where "m = min w h"
    define d where "d = m div 2"
    have m: "m \<le> thickness self" "22 \<le> m"
      using assms that by (simp_all only: m_def)
    have d: "11 \<le> d" "d \<le> m"
      using m(2) unfolding d_def by linarith+
    have "max 1 (d - 10) = d - 10"
      using d(1) by simp
    moreover have "min (thickness self) (d - 10) = d - 10"
      using d(2) m(1) by simp
    ultimately have e: "effective_thickness self w h = d - 10"
      by (simp add: effective_thickness_def max_thickness_def config_defs m_def d_def)
    have "bloom_t self w h = m"
      using m by (simp add: bloom_t_def m_def)
    with e d(2) show ?thesis
      by (simp add: SCREEN_MARGIN_def m_def d_def)
  qed
  from cap bands pos base tb lr rounded show ?thesis
    by blast
qed

theorem bloom_thickness_capped_at_smaller_dimension_witness:
  "bloom_t (init_original\<lparr>thickness := 900\<rparr>) 300 200 = 200
   \<and> effective_thickness (init_original\<lparr>thickness := 900\<rparr>) 300 200 = 90
   \<and> map band_rect (fst (paintEvent_original (init_original\<lparr>thickness := 900\<rparr>) 300 200))
       = [\<lparr>rx = 0, ry = 0, rw = 300, rh = 200\<rparr>, \<lparr>rx = 0, ry = 0, rw = 300, rh = 200\<rparr>,
          \<lparr>rx = 0, ry = 0, rw = 200, rh = 200\<rparr>, \<lparr>rx = 100, ry = 0, rw = 200, rh = 200\<rparr>,
          \<lparr>rx = 0, ry = 0, rw = 300, rh = 150\<rparr>, \<lparr>rx = 0, ry = 50, rw = 300, rh = 150\<rparr>,
          \<lparr>rx = 0, ry = 0, rw = 150, rh = 200\<rparr>, \<lparr>rx = 150, ry = 0, rw = 150, rh = 200\<rparr>,
          \<lparr>rx = 0, ry = 0, rw = 300, rh = 110\<rparr>, \<lparr>rx = 0, ry = 90, rw = 300, rh = 110\<rparr>,
          \<lparr>rx = 0, ry = 0, rw = 110, rh = 200\<rparr>, \<lparr>rx = 190, ry = 0, rw = 110, rh = 200\<rparr>,
          \<lparr>rx = 0, ry = 0, rw = 300, rh = 80\<rparr>, \<lparr>rx = 0, ry = 120, rw = 300, rh = 80\<rparr>,
          \<lparr>rx = 0, ry = 0, rw = 80, rh = 200\<rparr>, \<lparr>rx = 220, ry = 0, rw = 80, rh = 200\<rparr>]"
proof -
  let ?s = "init_original\<lparr>thickness := 900\<rparr>"
  have h: "min 300 200 \<le> thickness ?s" "brightness ?s = Fin (nearest (4 / 5))"
    "0 \<le> nearest (4 / 5)" "nearest (4 / 5) \<le> 2" "qt_int 300" "qt_int 200"
    by (simp_all add: init_original_def qt_int_def default_brightness_range)
  note r = bloom_thickness_capped_at_smaller_dimension [OF h]
  have e: "effective_thickness ?s 300 200 = 90"
    by (simp add: effective_thickness_def max_thickness_def config_defs)
  have t: "bloom_t ?s 300 200 = 200"
    using r by simp
  have "map band_rect (fst (paintEvent_original ?s 300 200)) =
      map band_rect (concat (map (\<lambda>(intensity, mul).
              layer_bands (color ?s) 300 200 (max 1 (trunc (nearest (of_int (min 300 200) * mul))))
                (clamp (trunc (nearest (nearest (255 * nearest (4 / 5)) * intensity))) 0 220)) layers))"
    by (simp only: r [THEN conjunct2, THEN conjunct1] fst_conv)
  also have "\<dots> = [\<lparr>rx = 0, ry = 0, rw = 300, rh = 200\<rparr>, \<lparr>rx = 0, ry = 0, rw = 300, rh = 200\<rparr>,
          \<lparr>rx = 0, ry = 0, rw = 200, rh = 200\<rparr>, \<lparr>rx = 100, ry = 0, rw = 200, rh = 200\<rparr>,
          \<lparr>rx = 0, ry = 0, rw = 300, rh = 150\<rparr>, \<lparr>rx = 0, ry = 50, rw = 300, rh = 150\<rparr>,
          \<lparr>rx = 0, ry = 0, rw = 150, rh = 200\<rparr>, \<lparr>rx = 150, ry = 0, rw = 150, rh = 200\<rparr>,
          \<lparr>rx = 0, ry = 0, rw = 300, rh = 110\<rparr>, \<lparr>rx = 0, ry = 90, rw = 300, rh = 110\<rparr>,
          \<lparr>rx = 0, ry = 0, rw = 110, rh = 200\<rparr>, \<lparr>rx = 190, ry = 0, rw = 110, rh = 200\<rparr>,
          \<lparr>rx = 0, ry = 0, rw = 300, rh = 80\<rparr>, \<lparr>rx = 0, ry = 120, rw = 300, rh = 80\<rparr>,
          \<lparr>rx = 0, ry = 0, rw = 80, rh = 200\<rparr>, \<lparr>rx = 220, ry = 0, rw = 80, rh = 200\<rparr>]"
    by (simp add: layers_def layer_bands_def sizes_200)
  finally show ?thesis
    using e t by simp
qed

end
